theory Spec2Isabelle
  imports Main "HOL-Library.Word"
begin

section \<open>Domain model (internal/domain)\<close>

text \<open>
  Timestamps are points on a discrete time line; only their order matters to the
  code (\<^verbatim>\<open>time.Now().After(t)\<close>, the SQL comparison \<^verbatim>\<open>expires_at < $1\<close>) and
  \<^verbatim>\<open>now.Add(ttl)\<close> is addition of a duration. The database is taken to store a
  timestamp as it is given. Writing to the log has no effect on any result and is
  left out.
\<close>

type_synonym time = int
type_synonym byte = "8 word"

text \<open>
  Go errors. The five sentinels of \<^verbatim>\<open>domain/errors.go\<close>; \<open>DriverError\<close> is an error
  returned by the database driver, carrying its \<^verbatim>\<open>Error()\<close> text; \<open>RandError\<close> is the
  error of \<^verbatim>\<open>rand.Read\<close>; \<open>Errorf msg\<close> is \<^verbatim>\<open>fmt.Errorf(msg)\<close> without \<^verbatim>\<open>%w\<close>;
  \<open>Wrapped msg e\<close> is \<^verbatim>\<open>fmt.Errorf(msg + ": %w", e)\<close>. \<open>RuntimePanic\<close> is not an error
  value: it stands for a Go run-time panic, which unwinds the call stack.
\<close>

datatype error =
    ErrURLNotFound
  | ErrURLExpired
  | ErrInvalidURL
  | ErrShortCodeAlreadyExists
  | ErrInvalidShortCode
  | DriverError string
  | RandError
  | Errorf string
  | Wrapped string error
  | RuntimePanic string

text \<open>The entity \<^verbatim>\<open>domain.URL\<close>. \<^verbatim>\<open>int64\<close> counters wrap around; nil pointers are \<open>None\<close>.\<close>

record URL =
  ID :: int
  ShortCode :: string
  OriginalURL :: string
  CreatedAt :: time
  ExpiresAt :: "time option"
  AccessCount :: "64 word"
  LastAccessed :: "time option"

text \<open>
  \<open>IsExpired\<close> and \<open>IncrementAccessCount\<close> read the clock with \<^verbatim>\<open>time.Now()\<close>; the
  reading is the argument \<open>now\<close>. \<^verbatim>\<open>now.After(t)\<close> is the strict order.
\<close>

definition IsExpired :: "URL \<Rightarrow> time \<Rightarrow> bool" where
  "IsExpired u now = (case ExpiresAt u of None \<Rightarrow> False | Some t \<Rightarrow> t < now)"

definition IncrementAccessCount :: "URL \<Rightarrow> time \<Rightarrow> URL" where
  "IncrementAccessCount u now = u\<lparr>AccessCount := AccessCount u + 1, LastAccessed := Some now\<rparr>"

text \<open>
  \<^verbatim>\<open>errors.Is(err, target)\<close> for a sentinel \<open>target\<close>: the chain of wrapped errors is
  followed until one of them is the target.
\<close>

fun errors_Is :: "error \<Rightarrow> error \<Rightarrow> bool" where
  "errors_Is (Wrapped msg e) target = errors_Is e target"
| "errors_Is e target = (e = target)"

definition is_panic :: "error \<Rightarrow> bool" where
  "is_panic e = (case e of RuntimePanic p \<Rightarrow> True | _ \<Rightarrow> False)"

section \<open>Short-code generator (generateRandomCode)\<close>

definition charset :: string where
  "charset = ''abcdefghijklmnopqrstuvwxyzABCDEFGHIJKLMNOPQRSTUVWXYZ0123456789''"

text \<open>The alphabet of Go's \<^verbatim>\<open>base64.RawURLEncoding\<close> (RFC 4648, section 5, no padding).\<close>

definition encodeURL :: string where
  "encodeURL = ''ABCDEFGHIJKLMNOPQRSTUVWXYZabcdefghijklmnopqrstuvwxyz0123456789-_''"

text \<open>
  \<^verbatim>\<open>Encoding.Encode\<close> of the standard library: three bytes are packed into a 24-bit
  value and cut into four 6-bit digits; a remainder of one byte gives two digits, a
  remainder of two bytes gives three.
\<close>

fun sextets :: "byte list \<Rightarrow> int list" where
  "sextets [] = []"
| "sextets [a] =
     (let val = uint a * 65536
      in [val div 262144 mod 64, val div 4096 mod 64])"
| "sextets [a, b] =
     (let val = uint a * 65536 + uint b * 256
      in [val div 262144 mod 64, val div 4096 mod 64, val div 64 mod 64])"
| "sextets (a # b # c # rest) =
     (let val = uint a * 65536 + uint b * 256 + uint c
      in [val div 262144 mod 64, val div 4096 mod 64, val div 64 mod 64, val mod 64]
         @ sextets rest)"

definition EncodeToString :: "byte list \<Rightarrow> string" where
  "EncodeToString src = map (\<lambda>n. encodeURL ! nat n) (sextets src)"

text \<open>
  The loop \<^verbatim>\<open>for i := 0; i < length; i++\<close> of \<open>generateRandomCode\<close>. Indexing
  \<^verbatim>\<open>randomBytes[i]\<close> beyond the slice is a run-time panic in Go.
\<close>

function remap_loop :: "string \<Rightarrow> byte list \<Rightarrow> nat \<Rightarrow> nat \<Rightarrow> string \<Rightarrow> error + string" where
  "remap_loop code randomBytes len i result =
     (if i < len then
        (if code ! i = CHR ''-'' \<or> code ! i = CHR ''_'' then
           (if i < length randomBytes then
              remap_loop code randomBytes len (i + 1)
                (result[i := charset ! nat (uint (randomBytes ! i) mod int (length charset))])
            else Inl (RuntimePanic ''index out of range''))
         else remap_loop code randomBytes len (i + 1) (result[i := code ! i]))
      else Inr result)"
  by pat_completeness auto
termination
  by (relation "measure (\<lambda>(code, randomBytes, len, i, result). len - i)") auto

declare remap_loop.simps [simp del]

text \<open>Go's integer division and remainder truncate towards zero.\<close>

definition go_div :: "int \<Rightarrow> int \<Rightarrow> int" where
  "go_div a b = (if (a < 0) = (b < 0) then \<bar>a\<bar> div \<bar>b\<bar> else - (\<bar>a\<bar> div \<bar>b\<bar>))"

definition go_rem :: "int \<Rightarrow> int \<Rightarrow> int" where
  "go_rem a b = a - b * go_div a b"

text \<open>
  \<open>generateRandomCode\<close>, with \<open>len\<close> for the parameter \<^verbatim>\<open>length\<close>. The second
  argument is what the secure random source can still deliver: \<^verbatim>\<open>rand.Read\<close> fills
  the whole buffer from it, or fails when the source cannot. A negative size given
  to \<^verbatim>\<open>make\<close> and a negative slice bound are run-time panics. Lengths are taken
  as integers: \<^verbatim>\<open>length*6\<close> leaves the range of \<^verbatim>\<open>int\<close> only for lengths that no
  buffer can have.
\<close>

definition generateRandomCode :: "int \<Rightarrow> byte list \<Rightarrow> error + string" where
  "generateRandomCode len entropy =
     (let numBytes = go_div (len * 6) 8;
          numBytes = (if go_rem (len * 6) 8 \<noteq> 0 then numBytes + 1 else numBytes)
      in if numBytes < 0 then Inl (RuntimePanic ''makeslice: len out of range'')
         else if int (length entropy) < numBytes
           then Inl (Wrapped ''failed to generate random bytes'' RandError)
         else
           (let randomBytes = take (nat numBytes) entropy;
                encoded = EncodeToString randomBytes
            in if int (length encoded) < len then Inl (Errorf ''generated code too short'')
               else if len < 0 then Inl (RuntimePanic ''slice bounds out of range'')
               else
                 (let code = take (nat len) encoded
                  in remap_loop code randomBytes (nat len) 0
                       (replicate (nat len) (CHR 0x00)))))"

section \<open>The table \<^verbatim>\<open>urls\<close> (migrations/001_create_urls_table.up.sql)\<close>

text \<open>
  The table is the list of its rows in insertion order, together with the sequence
  behind the \<^verbatim>\<open>BIGSERIAL\<close> column \<open>id\<close>. Every statement of the repository takes an
  argument \<open>fault\<close>: \<open>Some text\<close> when the driver call itself fails (no connection,
  deadline of the context exceeded) with an error of that text and the statement is
  not executed, \<open>None\<close> when the database executes the statement.
\<close>

record store =
  rows :: "URL list"
  next_id :: int

definition empty_store :: store where
  "empty_store = \<lparr>rows = [], next_id = 1\<rparr>"

text \<open>The text of the driver's error for a violation of \<^verbatim>\<open>short_code ... UNIQUE\<close>.\<close>

definition unique_violation :: string where
  "unique_violation =
     ''ERROR: duplicate key value violates unique constraint '' @ [CHR 0x22] @
     ''urls_short_code_key'' @ [CHR 0x22] @ '' (SQLSTATE 23505)''"

definition check_violation :: string where
  "check_violation =
     ''ERROR: new row for relation '' @ [CHR 0x22] @ ''urls'' @ [CHR 0x22] @
     '' violates check constraint '' @ [CHR 0x22] @ ''short_code_length_check'' @ [CHR 0x22] @
     '' (SQLSTATE 23514)''"

definition value_too_long :: string where
  "value_too_long = ''ERROR: value too long for type character varying(20) (SQLSTATE 22001)''"

text \<open>
  \<^verbatim>\<open>INSERT INTO urls (short_code, original_url, created_at, expires_at, access_count)
  VALUES (...) RETURNING id\<close>. The column \<open>last_accessed\<close> is not given and is NULL. The
  new id is taken from the sequence, which is not set back when the row is rejected
  by \<^verbatim>\<open>VARCHAR(20)\<close>, by \<^verbatim>\<open>short_code_length_check\<close> or by the unique constraint.
\<close>

definition sql_insert :: "store \<Rightarrow> URL \<Rightarrow> (string + int) \<times> store" where
  "sql_insert s url =
     (let new_id = next_id s; s' = s\<lparr>next_id := new_id + 1\<rparr>
      in if 20 < length (ShortCode url) then (Inl value_too_long, s')
         else if length (ShortCode url) < 3 then (Inl check_violation, s')
         else if ShortCode url \<in> set (map ShortCode (rows s)) then (Inl unique_violation, s')
         else (Inr new_id,
               s'\<lparr>rows := rows s @ [url\<lparr>ID := new_id, LastAccessed := None\<rparr>]\<rparr>))"

text \<open>The predicate \<^verbatim>\<open>expires_at IS NOT NULL AND expires_at < $1\<close>.\<close>

definition sql_expired :: "time \<Rightarrow> URL \<Rightarrow> bool" where
  "sql_expired now r = (case ExpiresAt r of None \<Rightarrow> False | Some t \<Rightarrow> t < now)"

section \<open>Repository (internal/repository/url_repository.go)\<close>

definition Create :: "store \<Rightarrow> string option \<Rightarrow> URL \<Rightarrow> (error + URL) \<times> store" where
  "Create s fault url =
     (let (res, s') = (case fault of Some text \<Rightarrow> (Inl text, s) | None \<Rightarrow> sql_insert s url)
      in case res of
           Inl text \<Rightarrow>
             if text = unique_violation then (Inl ErrShortCodeAlreadyExists, s')
             else (Inl (Wrapped ''failed to create url'' (DriverError text)), s')
         | Inr new_id \<Rightarrow> (Inr (url\<lparr>ID := new_id\<rparr>), s'))"

definition GetByShortCode :: "store \<Rightarrow> string option \<Rightarrow> string \<Rightarrow> error + URL" where
  "GetByShortCode s fault shortCode =
     (case fault of
        Some text \<Rightarrow> Inl (Wrapped ''failed to get url by short code'' (DriverError text))
      | None \<Rightarrow>
          (case find (\<lambda>r. ShortCode r = shortCode) (rows s) of
             None \<Rightarrow> Inl ErrURLNotFound
           | Some url \<Rightarrow> Inr url))"

definition GetByID :: "store \<Rightarrow> string option \<Rightarrow> int \<Rightarrow> error + URL" where
  "GetByID s fault uid =
     (case fault of
        Some text \<Rightarrow> Inl (Wrapped ''failed to get url by id'' (DriverError text))
      | None \<Rightarrow>
          (case find (\<lambda>r. ID r = uid) (rows s) of
             None \<Rightarrow> Inl ErrURLNotFound
           | Some url \<Rightarrow> Inr url))"

text \<open>\<^verbatim>\<open>UPDATE urls SET access_count = $1, last_accessed = $2 WHERE id = $3\<close>; \<open>None\<close> is nil.\<close>

definition Update :: "store \<Rightarrow> string option \<Rightarrow> URL \<Rightarrow> error option \<times> store" where
  "Update s fault url =
     (case fault of
        Some text \<Rightarrow> (Some (Wrapped ''failed to update url'' (DriverError text)), s)
      | None \<Rightarrow>
          (let rowsAffected = length (filter (\<lambda>r. ID r = ID url) (rows s));
               s' = s\<lparr>rows := map (\<lambda>r. if ID r = ID url
                                        then r\<lparr>AccessCount := AccessCount url,
                                               LastAccessed := LastAccessed url\<rparr>
                                        else r) (rows s)\<rparr>
           in if rowsAffected = 0 then (Some ErrURLNotFound, s') else (None, s')))"

definition Delete :: "store \<Rightarrow> string option \<Rightarrow> string \<Rightarrow> error option \<times> store" where
  "Delete s fault shortCode =
     (case fault of
        Some text \<Rightarrow> (Some (Wrapped ''failed to delete url'' (DriverError text)), s)
      | None \<Rightarrow>
          (let rowsAffected = length (filter (\<lambda>r. ShortCode r = shortCode) (rows s));
               s' = s\<lparr>rows := filter (\<lambda>r. ShortCode r \<noteq> shortCode) (rows s)\<rparr>
           in if rowsAffected = 0 then (Some ErrURLNotFound, s') else (None, s')))"

text \<open>\<open>DeleteExpired\<close>; \<open>now\<close> is the reading of \<^verbatim>\<open>time.Now()\<close> bound to \<^verbatim>\<open>$1\<close>.\<close>

definition DeleteExpired :: "store \<Rightarrow> string option \<Rightarrow> time \<Rightarrow> (error + int) \<times> store" where
  "DeleteExpired s fault now =
     (case fault of
        Some text \<Rightarrow> (Inl (Wrapped ''failed to delete expired urls'' (DriverError text)), s)
      | None \<Rightarrow>
          (let count = int (length (filter (sql_expired now) (rows s)));
               s' = s\<lparr>rows := filter (\<lambda>r. \<not> sql_expired now r) (rows s)\<rparr>
           in (Inr count, s')))"

text \<open>
  \<^verbatim>\<open>SELECT ... ORDER BY created_at DESC LIMIT $1 OFFSET $2\<close>. The database rejects a
  negative LIMIT or OFFSET. Rows of equal \<open>created_at\<close> come in an order SQL leaves
  open; here they keep their insertion order.
\<close>

definition List :: "store \<Rightarrow> string option \<Rightarrow> int \<Rightarrow> int \<Rightarrow> error + URL list" where
  "List s fault limit offset =
     (case fault of
        Some text \<Rightarrow> Inl (Wrapped ''failed to list urls'' (DriverError text))
      | None \<Rightarrow>
          if limit < 0 then
            Inl (Wrapped ''failed to list urls''
                  (DriverError ''ERROR: LIMIT must not be negative (SQLSTATE 2201W)''))
          else if offset < 0 then
            Inl (Wrapped ''failed to list urls''
                  (DriverError ''ERROR: OFFSET must not be negative (SQLSTATE 2201X)''))
          else Inr (take (nat limit) (drop (nat offset)
                      (sort_key (\<lambda>r. - CreatedAt r) (rows s)))))"

definition Count :: "store \<Rightarrow> string option \<Rightarrow> error + int" where
  "Count s fault =
     (case fault of
        Some text \<Rightarrow> Inl (Wrapped ''failed to count urls'' (DriverError text))
      | None \<Rightarrow> Inr (int (length (rows s))))"

section \<open>Service (package service)\<close>

text \<open>The fields of \<^verbatim>\<open>config.URLConfig\<close> that the service reads; durations are integers.\<close>

record URLConfig =
  BaseURL :: string
  ShortCodeLength :: int
  DefaultTTL :: int

text \<open>
  \<open>validateURL\<close>. The parser \<^verbatim>\<open>url.ParseRequestURI\<close> of the standard library is the
  parameter \<open>parse\<close>: it fails (\<open>None\<close>) or gives the scheme and the host.
\<close>

definition validateURL :: "(string \<Rightarrow> (string \<times> string) option) \<Rightarrow> string \<Rightarrow> error option" where
  "validateURL parse rawURL =
     (if rawURL = [] then Some ErrInvalidURL
      else case parse rawURL of
             None \<Rightarrow> Some ErrInvalidURL
           | Some (scheme, host) \<Rightarrow>
               if scheme \<noteq> ''http'' \<and> scheme \<noteq> ''https'' then Some ErrInvalidURL
               else if host = [] then Some ErrInvalidURL
               else None)"

text \<open>
  \<open>validateShortCode\<close>. \<^verbatim>\<open>len(code)\<close> counts bytes. The loop ranges over the runes
  of the string; a rune outside ASCII is never one of the accepted characters, and
  neither is a byte outside ASCII, so the test is made on the bytes.
\<close>

definition code_char_ok :: "char \<Rightarrow> bool" where
  "code_char_ok c =
     (let r = (of_char c :: nat)
      in (of_char CHR ''a'' \<le> r \<and> r \<le> of_char CHR ''z'') \<or>
         (of_char CHR ''A'' \<le> r \<and> r \<le> of_char CHR ''Z'') \<or>
         (of_char CHR ''0'' \<le> r \<and> r \<le> of_char CHR ''9'') \<or>
         c = CHR ''-'' \<or> c = CHR ''_'')"

definition validateShortCode :: "string \<Rightarrow> error option" where
  "validateShortCode code =
     (if length code < 3 \<or> 20 < length code then Some ErrInvalidShortCode
      else if list_all code_char_ok code then None
      else Some ErrInvalidShortCode)"

definition maxAttempts :: nat where
  "maxAttempts = 10"

text \<open>
  The loop of \<open>generateShortCode\<close>. \<open>rnd attempt\<close> is what the random source delivers
  in that attempt and \<open>fault attempt\<close> the fault of its probe. The second component of
  the result lists the codes the store was probed for, in order. A panic of the
  generator is not an error value and is not wrapped.
\<close>

function generateShortCode_loop ::
  "URLConfig \<Rightarrow> store \<Rightarrow> (nat \<Rightarrow> byte list) \<Rightarrow> (nat \<Rightarrow> string option) \<Rightarrow> nat \<Rightarrow> string list
     \<Rightarrow> (error + string) \<times> string list" where
  "generateShortCode_loop cfg s rnd fault attempt probed =
     (if attempt < maxAttempts then
        (case generateRandomCode (ShortCodeLength cfg) (rnd attempt) of
           Inl err \<Rightarrow>
             if is_panic err then (Inl err, probed)
             else (Inl (Wrapped ''failed to generate random code'' err), probed)
         | Inr code \<Rightarrow>
             (case GetByShortCode s (fault attempt) code of
                Inl err \<Rightarrow>
                  if err = ErrURLNotFound then (Inr code, probed @ [code])
                  else (Inl (Wrapped ''failed to check code uniqueness'' err), probed @ [code])
              | Inr found \<Rightarrow>
                  generateShortCode_loop cfg s rnd fault (attempt + 1) (probed @ [code])))
      else (Inl (Errorf ''failed to generate unique short code after 10 attempts''), probed))"
  by pat_completeness auto
termination
  by (relation "measure (\<lambda>(cfg, s, rnd, fault, attempt, probed). maxAttempts - attempt)") auto

declare generateShortCode_loop.simps [simp del]

definition generateShortCode ::
  "URLConfig \<Rightarrow> store \<Rightarrow> (nat \<Rightarrow> byte list) \<Rightarrow> (nat \<Rightarrow> string option)
     \<Rightarrow> (error + string) \<times> string list" where
  "generateShortCode cfg s rnd fault = generateShortCode_loop cfg s rnd fault 0 []"

text \<open>
  \<open>CreateShortURL\<close>. \<open>now\<close> is the clock reading, \<open>ifault\<close> the fault of the INSERT.
\<close>

definition CreateShortURL ::
  "URLConfig \<Rightarrow> (string \<Rightarrow> (string \<times> string) option) \<Rightarrow> (nat \<Rightarrow> byte list)
     \<Rightarrow> (nat \<Rightarrow> string option) \<Rightarrow> string option \<Rightarrow> time
     \<Rightarrow> store \<Rightarrow> string \<Rightarrow> string \<Rightarrow> int \<Rightarrow> (error + URL) \<times> store" where
  "CreateShortURL cfg parse rnd pfault ifault now s originalURL customCode ttl =
     (case validateURL parse originalURL of
        Some err \<Rightarrow> (Inl (Wrapped ''invalid url'' err), s)
      | None \<Rightarrow>
          (case (if customCode \<noteq> []
                 then (case validateShortCode customCode of
                         Some err \<Rightarrow> Inl err
                       | None \<Rightarrow> Inr customCode)
                 else (case fst (generateShortCode cfg s rnd pfault) of
                         Inl err \<Rightarrow>
                           if is_panic err then Inl err
                           else Inl (Wrapped ''failed to generate short code'' err)
                       | Inr code \<Rightarrow> Inr code)) of
             Inl err \<Rightarrow> (Inl err, s)
           | Inr shortCode \<Rightarrow>
               (let expiresAt = (if 0 < ttl then Some (now + ttl)
                                 else if 0 < DefaultTTL cfg then Some (now + DefaultTTL cfg)
                                 else None);
                    urlEntity = \<lparr>ID = 0, ShortCode = shortCode, OriginalURL = originalURL,
                                 CreatedAt = now, ExpiresAt = expiresAt, AccessCount = 0,
                                 LastAccessed = None\<rparr>
                in case Create s ifault urlEntity of
                     (Inl err, s') \<Rightarrow> (Inl (Wrapped ''failed to create url'' err), s')
                   | (Inr created, s') \<Rightarrow> (Inr created, s'))))"

text \<open>
  \<open>GetOriginalURL\<close>. \<open>rfault\<close> and \<open>ufault\<close> are the faults of the SELECT and of the
  UPDATE; \<open>now\<close> is the clock reading of \<open>IsExpired\<close> and \<open>now'\<close> the later one of
  \<open>IncrementAccessCount\<close>. The error of \<open>Update\<close> is logged and dropped.
\<close>

definition GetOriginalURL ::
  "store \<Rightarrow> string option \<Rightarrow> string option \<Rightarrow> time \<Rightarrow> time \<Rightarrow> string \<Rightarrow> (error + URL) \<times> store" where
  "GetOriginalURL s rfault ufault now now' shortCode =
     (case GetByShortCode s rfault shortCode of
        Inl err \<Rightarrow> (Inl err, s)
      | Inr urlEntity \<Rightarrow>
          if IsExpired urlEntity now then (Inl ErrURLExpired, s)
          else
            (let urlEntity = IncrementAccessCount urlEntity now';
                 (err, s') = Update s ufault urlEntity
             in (Inr urlEntity, s')))"

definition GetURLMetadata :: "store \<Rightarrow> string option \<Rightarrow> string \<Rightarrow> (error + URL) \<times> store" where
  "GetURLMetadata s fault shortCode =
     (case GetByShortCode s fault shortCode of
        Inl err \<Rightarrow> (Inl err, s)
      | Inr urlEntity \<Rightarrow> (Inr urlEntity, s))"

definition DeleteURL :: "store \<Rightarrow> string option \<Rightarrow> string \<Rightarrow> error option \<times> store" where
  "DeleteURL s fault shortCode =
     (case Delete s fault shortCode of
        (Some err, s') \<Rightarrow> (Some (Wrapped ''failed to delete url'' err), s')
      | (None, s') \<Rightarrow> (None, s'))"

text \<open>The two adjustments at the head of \<open>ListURLs\<close>.\<close>

definition effective_limit :: "int \<Rightarrow> int" where
  "effective_limit limit = (if limit \<le> 0 \<or> 100 < limit then 20 else limit)"

definition effective_offset :: "int \<Rightarrow> int" where
  "effective_offset offset = (if offset < 0 then 0 else offset)"

definition ListURLs ::
  "store \<Rightarrow> string option \<Rightarrow> string option \<Rightarrow> int \<Rightarrow> int \<Rightarrow> (error + URL list \<times> int) \<times> store" where
  "ListURLs s lfault cfault limit offset =
     (let limit = effective_limit limit;
          offset = effective_offset offset
      in case List s lfault limit offset of
           Inl err \<Rightarrow> (Inl (Wrapped ''failed to list urls'' err), s)
         | Inr urls \<Rightarrow>
             (case Count s cfault of
                Inl err \<Rightarrow> (Inl (Wrapped ''failed to count urls'' err), s)
              | Inr totalCount \<Rightarrow> (Inr (urls, totalCount), s)))"

definition CleanupExpired :: "store \<Rightarrow> string option \<Rightarrow> time \<Rightarrow> (error + int) \<times> store" where
  "CleanupExpired s fault now =
     (case DeleteExpired s fault now of
        (Inl err, s') \<Rightarrow> (Inl (Wrapped ''failed to cleanup expired urls'' err), s')
      | (Inr count, s') \<Rightarrow> (Inr count, s'))"

section \<open>Handler (package handler)\<close>

text \<open>\<open>handleServiceError\<close>: the status code and the error token of the response.\<close>

definition handleServiceError :: "error \<Rightarrow> nat \<times> string" where
  "handleServiceError err =
     (if errors_Is err ErrURLNotFound then (404, ''url not found'')
      else if errors_Is err ErrURLExpired then (410, ''url has expired'')
      else if errors_Is err ErrInvalidURL then (400, ''invalid url'')
      else if errors_Is err ErrShortCodeAlreadyExists then (409, ''short code already exists'')
      else if errors_Is err ErrInvalidShortCode then (400, ''invalid short code'')
      else (500, ''internal server error''))"

section \<open>Well-formed tables\<close>

text \<open>
  What the primary key, the unique constraint and the sequence guarantee of every
  table the database can hold.
\<close>

definition wf_store :: "store \<Rightarrow> bool" where
  "wf_store s =
     (distinct (map ID (rows s)) \<and> distinct (map ShortCode (rows s)) \<and>
      list_all (\<lambda>r. ID r < next_id s) (rows s))"

definition is_alnum :: "char \<Rightarrow> bool" where
  "is_alnum c =
     (let r = (of_char c :: nat)
      in (48 \<le> r \<and> r \<le> 57) \<or> (65 \<le> r \<and> r \<le> 90) \<or> (97 \<le> r \<and> r \<le> 122))"

section \<open>Counting random bytes\<close>

text \<open>
  The 256 values of a byte, and the number of those for which the generator, asked for
  a code of length 1 and given that byte, returns the one-character code \<open>[c]\<close>. Under
  a uniformly distributed byte this number divided by 256 is the probability of \<open>c\<close>.
\<close>

definition all_bytes :: "byte list" where
  "all_bytes = map of_nat [0..<256]"

definition single_byte_count :: "char \<Rightarrow> nat" where
  "single_byte_count c =
     length (filter (\<lambda>b. generateRandomCode 1 [b] = Inr [c]) all_bytes)"

section \<open>A sample table\<close>

text \<open>
  Three rows as the service stores them: one whose expiry has passed at every time
  after 200, one that never expires and one that expires at time 1000.
\<close>

definition row_old :: URL where
  "row_old = \<lparr>ID = 1, ShortCode = ''old1234'', OriginalURL = ''https://example.com/a'',
     CreatedAt = 100, ExpiresAt = Some 200, AccessCount = 3, LastAccessed = Some 150\<rparr>"

definition row_golang :: URL where
  "row_golang = \<lparr>ID = 2, ShortCode = ''golang'', OriginalURL = ''https://golang.org'',
     CreatedAt = 120, ExpiresAt = None, AccessCount = 0, LastAccessed = None\<rparr>"

definition row_new :: URL where
  "row_new = \<lparr>ID = 3, ShortCode = ''a3F9kPm'', OriginalURL = ''https://github.com'',
     CreatedAt = 130, ExpiresAt = Some 1000, AccessCount = 7, LastAccessed = Some 140\<rparr>"

definition sample_store :: store where
  "sample_store = \<lparr>rows = [row_old, row_golang, row_new], next_id = 4\<rparr>"

text \<open>
  A configuration with the default code length, a parser that knows two URLs, a table
  that also holds the code \<^verbatim>\<open>AAAAAAA\<close> (the code of six zero bytes), a random source that
  always delivers zero bytes and one that delivers other bytes from the third call on.
\<close>

definition sample_config :: URLConfig where
  "sample_config = \<lparr>BaseURL = ''http://localhost:8080'', ShortCodeLength = 7, DefaultTTL = 0\<rparr>"

definition sample_parse :: "string \<Rightarrow> (string \<times> string) option" where
  "sample_parse u =
     (if u = ''https://golang.org'' then Some (''https'', ''golang.org'')
      else if u = ''https://example.org'' then Some (''https'', ''example.org'')
      else None)"

definition row_zero :: URL where
  "row_zero = \<lparr>ID = 4, ShortCode = ''AAAAAAA'', OriginalURL = ''https://example.org'',
     CreatedAt = 140, ExpiresAt = None, AccessCount = 0, LastAccessed = None\<rparr>"

definition busy_store :: store where
  "busy_store = \<lparr>rows = [row_old, row_golang, row_new, row_zero], next_id = 5\<rparr>"

definition zero_source :: "nat \<Rightarrow> byte list" where
  "zero_source k = [0x00, 0x00, 0x00, 0x00, 0x00, 0x00]"

definition late_source :: "nat \<Rightarrow> byte list" where
  "late_source k =
     (if k < 2 then [0x00, 0x00, 0x00, 0x00, 0x00, 0x00]
      else [0x69, 0xB7, 0x1D, 0x79, 0xF8, 0x21])"

text \<open>The row that creating \<^verbatim>\<open>gopher\<close> at time 600 adds to the sample table.\<close>

definition row_gopher :: URL where
  "row_gopher = \<lparr>ID = 4, ShortCode = ''gopher'', OriginalURL = ''https://golang.org'',
     CreatedAt = 600, ExpiresAt = None, AccessCount = 0, LastAccessed = None\<rparr>"

definition gopher_store :: store where
  "gopher_store = \<lparr>rows = [row_old, row_golang, row_new, row_gopher], next_id = 5\<rparr>"

section \<open>Properties of the short-code generator\<close>

lemma length_charset: "length charset = 62"
  by (simp add: charset_def)

lemma length_encodeURL: "length encodeURL = 64"
  by (simp add: encodeURL_def)

lemma charset_all_alnum: "list_all is_alnum charset"
  by (simp add: charset_def is_alnum_def)

lemma charset_alnum: "c \<in> set charset \<Longrightarrow> is_alnum c"
  using charset_all_alnum by (simp add: list_all_iff)

lemma encodeURL_all_alnum:
  "list_all (\<lambda>c. c = CHR ''-'' \<or> c = CHR ''_'' \<or> is_alnum c) encodeURL"
  by (simp add: encodeURL_def is_alnum_def)

lemma encodeURL_alnum:
  "c \<in> set encodeURL \<Longrightarrow> c \<noteq> CHR ''-'' \<Longrightarrow> c \<noteq> CHR ''_'' \<Longrightarrow> is_alnum c"
  using encodeURL_all_alnum by (auto simp: list_all_iff)

lemma sextets_bound: "n \<in> set (sextets bs) \<Longrightarrow> 0 \<le> n \<and> n < 64"
  by (induction bs arbitrary: n rule: sextets.induct) (auto simp: Let_def)

lemma EncodeToString_chars: "c \<in> set (EncodeToString bs) \<Longrightarrow> c \<in> set encodeURL"
proof -
  assume "c \<in> set (EncodeToString bs)"
  then obtain n where n: "n \<in> set (sextets bs)" and c: "c = encodeURL ! nat n"
    by (auto simp: EncodeToString_def)
  from sextets_bound [OF n] have "nat n < 64"
    by linarith
  then have "nat n < length encodeURL"
    by (simp add: length_encodeURL)
  with c show ?thesis by simp
qed

lemma remap_loop_alnum:
  "remap_loop code rb len i res = Inr out \<Longrightarrow> length res = len \<Longrightarrow> i \<le> len \<Longrightarrow>
   (\<forall>j<len. code ! j \<in> set encodeURL) \<Longrightarrow> (\<forall>j<i. is_alnum (res ! j)) \<Longrightarrow>
   length out = len \<and> (\<forall>j<len. is_alnum (out ! j))"
proof (induction code rb len i res rule: remap_loop.induct)
  case (1 code rb len i res)
  show ?case
  proof (cases "i < len")
    case False
    with "1.prems" show ?thesis
      by (simp add: remap_loop.simps)
  next
    case True
    show ?thesis
    proof (cases "code ! i = CHR ''-'' \<or> code ! i = CHR ''_''")
      case special: True
      with True "1.prems"(1) have inb: "i < length rb"
        by (auto simp: remap_loop.simps split: if_splits)
      let ?c = "charset ! nat (uint (rb ! i) mod int (length charset))"
      let ?res = "res[i := ?c]"
      have step: "remap_loop code rb len (i + 1) ?res = Inr out"
        using True special inb "1.prems"(1) by (simp add: remap_loop.simps)
      have "?c \<in> set charset"
        by (rule nth_mem) (simp add: length_charset)
      then have c: "is_alnum ?c" by (rule charset_alnum)
      have inv: "\<forall>j<i + 1. is_alnum (?res ! j)"
        using "1.prems"(2,5) True c by (auto simp: nth_list_update less_Suc_eq)
      show ?thesis
        using "1.IH"(1) [OF True special inb step] "1.prems"(2,4) True inv by simp
    next
      case plain: False
      let ?res = "res[i := code ! i]"
      have step: "remap_loop code rb len (i + 1) ?res = Inr out"
        using True plain "1.prems"(1) by (simp add: remap_loop.simps)
      have c: "is_alnum (code ! i)"
        using "1.prems"(4) True plain by (auto intro: encodeURL_alnum)
      have inv: "\<forall>j<i + 1. is_alnum (?res ! j)"
        using "1.prems"(2,5) True c by (auto simp: nth_list_update less_Suc_eq)
      show ?thesis
        using "1.IH"(2) [OF True plain step] "1.prems"(2,4) True inv by simp
    qed
  qed
qed

text \<open>
  Claim C3. For every configured length and every sequence of random bytes, whenever
  \<open>generateRandomCode\<close> returns a code, the code has exactly that many characters
  and each of them is a letter or a digit.
\<close>

theorem generateRandomCode_alnum:
  "generateRandomCode len entropy = Inr code \<Longrightarrow>
     int (length code) = len \<and> list_all is_alnum code"
proof -
  assume ok: "generateRandomCode len entropy = Inr code"
  define numBytes where "numBytes =
    (if go_rem (len * 6) 8 \<noteq> 0 then go_div (len * 6) 8 + 1 else go_div (len * 6) 8)"
  define rb where "rb = take (nat numBytes) entropy"
  define encoded where "encoded = EncodeToString rb"
  from ok have nonneg: "0 \<le> len" and long: "len \<le> int (length encoded)"
    and loop: "remap_loop (take (nat len) encoded) rb (nat len) 0
                 (replicate (nat len) (CHR 0x00)) = Inr code"
    by (auto simp: generateRandomCode_def Let_def numBytes_def rb_def encoded_def
             split: if_splits)
  have chars: "\<forall>j<nat len. take (nat len) encoded ! j \<in> set encodeURL"
  proof (intro allI impI)
    fix j assume j: "j < nat len"
    with long have "j < length encoded" by simp
    then have "encoded ! j \<in> set (EncodeToString rb)"
      unfolding encoded_def by (rule nth_mem)
    then show "take (nat len) encoded ! j \<in> set encodeURL"
      using j by (simp add: EncodeToString_chars)
  qed
  have "length code = nat len \<and> (\<forall>j<nat len. is_alnum (code ! j))"
    by (rule remap_loop_alnum [OF loop]) (use chars in simp_all)
  with nonneg show ?thesis
    by (simp add: list_all_length)
qed


theorem generateRandomCode_alnum_witness:
  "generateRandomCode 7 [0x69, 0xB7, 0x1D, 0x79, 0xF8, 0x21] = Inr ''abcdefg'' \<and>
   int (length ''abcdefg'') = 7 \<and> list_all is_alnum ''abcdefg''"
proof -
  have run: "generateRandomCode 7 [0x69, 0xB7, 0x1D, 0x79, 0xF8, 0x21] = Inr ''abcdefg''"
    by code_simp
  from generateRandomCode_alnum [OF run] run show ?thesis
    by simp
qed

text \<open>
  Claim C4. For the default length 7 and for length 4 there are random bytes for which
  \<open>generateRandomCode\<close> neither returns a code nor an error: the buffer holds
  6 (respectively 3) bytes, the last character of the code is \<^verbatim>\<open>-\<close>, and the remapping
  reads \<^verbatim>\<open>randomBytes[6]\<close> (respectively \<^verbatim>\<open>randomBytes[3]\<close>), which does not exist.
\<close>

theorem generateRandomCode_index_out_of_range:
  "generateRandomCode 7 [0x00, 0x00, 0x00, 0x00, 0x0F, 0x80] =
     Inl (RuntimePanic ''index out of range'') \<and>
   generateRandomCode 4 [0x00, 0x00, 0x3E] = Inl (RuntimePanic ''index out of range'')"
  by code_simp

section \<open>Every operation keeps the table well formed\<close>

text \<open>
  The empty table is well formed, and no operation of the repository or of the service
  leaves a well-formed table otherwise, whatever faults occur.
\<close>

lemma wf_empty_store: "wf_store empty_store"
  by (simp add: wf_store_def empty_store_def)

lemma wf_sql_insert: "wf_store s \<Longrightarrow> wf_store (snd (sql_insert s url))"
  by (auto simp: wf_store_def sql_insert_def Let_def list_all_iff)

lemma wf_Create: "wf_store s \<Longrightarrow> wf_store (snd (Create s fault url))"
proof (cases fault)
  case None
  assume "wf_store s"
  then have "wf_store (snd (sql_insert s url))"
    by (rule wf_sql_insert)
  with None show ?thesis
    by (auto simp: Create_def case_prod_beta split: sum.splits)
next
  case (Some msg)
  assume "wf_store s"
  with Some show ?thesis
    by (simp add: Create_def)
qed

lemma wf_Update: "wf_store s \<Longrightarrow> wf_store (snd (Update s fault url))"
proof -
  assume wf: "wf_store s"
  let ?f = "\<lambda>r. if ID r = ID url
                 then r\<lparr>AccessCount := AccessCount url, LastAccessed := LastAccessed url\<rparr>
                 else r"
  have ids: "map ID (map ?f (rows s)) = map ID (rows s)"
    by (induction "rows s") (auto simp: comp_def)
  have codes: "map ShortCode (map ?f (rows s)) = map ShortCode (rows s)"
    by (induction "rows s") (auto simp: comp_def)
  have "wf_store (s\<lparr>rows := map ?f (rows s)\<rparr>)"
    using wf ids codes by (auto simp: wf_store_def list_all_iff simp del: map_map)
  then show ?thesis
    using wf by (cases fault) (simp_all add: Update_def Let_def)
qed

lemma wf_filter: "wf_store s \<Longrightarrow> wf_store (s\<lparr>rows := filter P (rows s)\<rparr>)"
  by (auto simp: wf_store_def list_all_iff distinct_map_filter)

lemma wf_Delete: "wf_store s \<Longrightarrow> wf_store (snd (Delete s fault shortCode))"
  using wf_filter [of s "\<lambda>r. ShortCode r \<noteq> shortCode"]
  by (cases fault) (simp_all add: Delete_def Let_def)

lemma wf_DeleteExpired: "wf_store s \<Longrightarrow> wf_store (snd (DeleteExpired s fault now))"
  using wf_filter [of s "\<lambda>r. \<not> sql_expired now r"]
  by (cases fault) (simp_all add: DeleteExpired_def Let_def)

lemma wf_GetOriginalURL:
  "wf_store s \<Longrightarrow> wf_store (snd (GetOriginalURL s rfault ufault now now' shortCode))"
proof -
  assume wf: "wf_store s"
  show ?thesis
  proof (cases "GetByShortCode s rfault shortCode")
    case (Inl err)
    with wf show ?thesis by (simp add: GetOriginalURL_def)
  next
    case (Inr u)
    show ?thesis
    proof (cases "IsExpired u now")
      case True
      with Inr wf show ?thesis by (simp add: GetOriginalURL_def)
    next
      case False
      with Inr wf_Update [OF wf, of ufault "IncrementAccessCount u now'"] show ?thesis
        by (simp add: GetOriginalURL_def case_prod_beta Let_def)
    qed
  qed
qed

lemma CreateShortURL_store:
  "snd (CreateShortURL cfg parse rnd pfault ifault now s originalURL customCode ttl) = s \<or>
   (\<exists>u. snd (CreateShortURL cfg parse rnd pfault ifault now s originalURL customCode ttl) =
          snd (Create s ifault u))"
proof (cases "validateURL parse originalURL")
  case (Some err)
  then show ?thesis by (simp add: CreateShortURL_def)
next
  case None
  let ?pick = "if customCode \<noteq> []
                 then (case validateShortCode customCode of
                         Some err \<Rightarrow> Inl err
                       | None \<Rightarrow> Inr customCode)
                 else (case fst (generateShortCode cfg s rnd pfault) of
                         Inl err \<Rightarrow>
                           if is_panic err then Inl err
                           else Inl (Wrapped ''failed to generate short code'' err)
                       | Inr code \<Rightarrow> Inr code)"
  show ?thesis
  proof (cases ?pick)
    case (Inl err)
    with None show ?thesis by (simp add: CreateShortURL_def)
  next
    case (Inr shortCode)
    let ?u = "\<lparr>ID = 0, ShortCode = shortCode, OriginalURL = originalURL,
            CreatedAt = now,
            ExpiresAt = (if 0 < ttl then Some (now + ttl)
                         else if 0 < DefaultTTL cfg then Some (now + DefaultTTL cfg) else None),
            AccessCount = 0, LastAccessed = None\<rparr>"
    obtain res s' where c: "Create s ifault ?u = (res, s')"
      by (cases "Create s ifault ?u")
    have "snd (CreateShortURL cfg parse rnd pfault ifault now s originalURL customCode ttl) = s'"
      using None Inr c by (cases res) (simp_all add: CreateShortURL_def Let_def)
    also have "s' = snd (Create s ifault ?u)"
      by (simp add: c)
    finally show ?thesis
      by blast
  qed
qed

lemma wf_CreateShortURL:
  "wf_store s \<Longrightarrow>
     wf_store (snd (CreateShortURL cfg parse rnd pfault ifault now s originalURL customCode ttl))"
  using CreateShortURL_store [of cfg parse rnd pfault ifault now s originalURL customCode ttl]
    wf_Create [of s ifault]
  by auto

lemma wf_CleanupExpired: "wf_store s \<Longrightarrow> wf_store (snd (CleanupExpired s fault now))"
proof -
  have "snd (CleanupExpired s fault now) = snd (DeleteExpired s fault now)"
    by (cases "DeleteExpired s fault now") (auto simp: CleanupExpired_def split: sum.splits)
  then show "wf_store s \<Longrightarrow> wf_store (snd (CleanupExpired s fault now))"
    by (simp add: wf_DeleteExpired)
qed

section \<open>Properties of the store operations\<close>

lemma find_stored:
  "distinct (map ShortCode xs) \<Longrightarrow> r \<in> set xs \<Longrightarrow>
     find (\<lambda>x. ShortCode x = ShortCode r) xs = Some r"
  by (induction xs) (auto simp: image_iff)

lemma GetByShortCode_stored:
  "wf_store s \<Longrightarrow> r \<in> set (rows s) \<Longrightarrow> GetByShortCode s None (ShortCode r) = Inr r"
  by (simp add: GetByShortCode_def wf_store_def find_stored)

lemma update_by_id:
  assumes "distinct (map ID xs)" and "r \<in> set xs"
  shows "map (\<lambda>x. if ID x = ID r then f x else x) xs = map (\<lambda>x. if x = r then f r else x) xs"
proof (rule map_cong [OF refl])
  fix x assume "x \<in> set xs"
  with assms have "ID x = ID r \<longleftrightarrow> x = r"
    by (auto simp: distinct_map inj_on_def)
  then show "(if ID x = ID r then f x else x) = (if x = r then f r else x)"
    by auto
qed

lemma sint_succ:
  fixes c :: "64 word"
  shows "sint c < 2 ^ 63 - 1 \<Longrightarrow> sint (c + 1) = sint c + 1"
proof -
  assume less: "sint c < 2 ^ 63 - 1"
  have ge: "- (2 ^ 63) \<le> sint c"
    using sint_ge [of c] by simp
  have "sint (c + 1) = signed_take_bit 63 (sint c + 1)"
    by (simp add: sint_word_ariths)
  also have "\<dots> = sint c + 1"
    using less ge by (simp add: signed_take_bit_int_eq_self)
  finally show ?thesis .
qed

lemma sample_rows: "rows sample_store = [row_old, row_golang, row_new]"
  by (simp add: sample_store_def)

lemma wf_sample_store: "wf_store sample_store"
  by (simp add: wf_store_def sample_store_def row_old_def row_golang_def row_new_def)

lemma sql_expired_iff: "sql_expired now r \<longleftrightarrow> (\<exists>t. ExpiresAt r = Some t \<and> t < now)"
  by (cases "ExpiresAt r") (simp_all add: sql_expired_def)

text \<open>
  Claim C1. For every stored record whose \<open>ExpiresAt\<close> is set and lies before the
  clock reading, \<open>GetOriginalURL\<close> fails with \<open>ErrURLExpired\<close> (status 410) when the
  store delivers the record; the table, and with it the access count and the time of
  last access of the record, is the same afterwards, whatever the store does.
\<close>

theorem GetOriginalURL_expired:
  assumes "wf_store s" and "r \<in> set (rows s)" and "ExpiresAt r = Some t" and "t < now"
  shows "GetOriginalURL s None ufault now now' (ShortCode r) = (Inl ErrURLExpired, s) \<and>
         snd (GetOriginalURL s rfault ufault now now' (ShortCode r)) = s \<and>
         fst (handleServiceError ErrURLExpired) = 410"
proof -
  have read: "GetByShortCode s None (ShortCode r) = Inr r"
    using assms(1,2) by (rule GetByShortCode_stored)
  have expired: "IsExpired r now"
    using assms(3,4) by (simp add: IsExpired_def)
  have first: "GetOriginalURL s None ufault now now' (ShortCode r) = (Inl ErrURLExpired, s)"
    by (simp add: GetOriginalURL_def read expired)
  have second: "snd (GetOriginalURL s rfault ufault now now' (ShortCode r)) = s"
  proof (cases rfault)
    case None
    then show ?thesis by (simp add: GetOriginalURL_def read expired)
  next
    case (Some msg)
    then show ?thesis by (simp add: GetOriginalURL_def GetByShortCode_def)
  qed
  show ?thesis
    using first second by (simp add: handleServiceError_def)
qed

theorem GetOriginalURL_expired_witness:
  "wf_store sample_store \<and> row_old \<in> set (rows sample_store) \<and>
   ExpiresAt row_old = Some 200 \<and> (200 :: int) < 500 \<and>
   GetOriginalURL sample_store None None 500 501 ''old1234'' = (Inl ErrURLExpired, sample_store)"
proof -
  have mem: "row_old \<in> set (rows sample_store)"
    by (simp add: sample_rows)
  have exp: "ExpiresAt row_old = Some 200"
    by (simp add: row_old_def)
  have code: "ShortCode row_old = ''old1234''"
    by (simp add: row_old_def)
  from GetOriginalURL_expired [OF wf_sample_store mem exp, of 500 None 501 None]
  show ?thesis
    using wf_sample_store mem exp by (simp add: code)
qed

text \<open>
  Claim C2. For every stored record that is not expired, \<open>GetOriginalURL\<close> returns the
  record with \<open>AccessCount\<close> incremented by one (as an \<^verbatim>\<open>int64\<close>, so by one as an integer
  below the largest value) and \<open>LastAccessed\<close> set to the clock reading, also when
  the UPDATE fails; when the UPDATE is executed the stored record is replaced by the
  returned one and no other row changes; when it fails the table is unchanged and the
  caller still gets the record and no error.
\<close>

theorem GetOriginalURL_counts_access:
  assumes "wf_store s" and "r \<in> set (rows s)" and "\<not> IsExpired r now"
  shows "fst (GetOriginalURL s None ufault now now' (ShortCode r)) =
           Inr (r\<lparr>AccessCount := AccessCount r + 1, LastAccessed := Some now'\<rparr>) \<and>
         rows (snd (GetOriginalURL s None None now now' (ShortCode r))) =
           map (\<lambda>x. if x = r
                     then r\<lparr>AccessCount := AccessCount r + 1, LastAccessed := Some now'\<rparr>
                     else x) (rows s) \<and>
         (ufault \<noteq> None \<longrightarrow> snd (GetOriginalURL s None ufault now now' (ShortCode r)) = s) \<and>
         (sint (AccessCount r) < 2 ^ 63 - 1 \<longrightarrow>
            sint (AccessCount r + 1) = sint (AccessCount r) + 1)"
proof -
  define r' where "r' = r\<lparr>AccessCount := AccessCount r + 1, LastAccessed := Some now'\<rparr>"
  have read: "GetByShortCode s None (ShortCode r) = Inr r"
    using assms(1,2) by (rule GetByShortCode_stored)
  have inc: "IncrementAccessCount r now' = r'"
    by (simp add: IncrementAccessCount_def r'_def)
  have returned: "fst (GetOriginalURL s None ufault now now' (ShortCode r)) = Inr r'"
    using assms(3) by (simp add: GetOriginalURL_def read inc case_prod_beta)
  have ids: "distinct (map ID (rows s))"
    using assms(1) by (simp add: wf_store_def)
  have "rows (snd (Update s None r')) =
          map (\<lambda>x. if ID x = ID r
                    then x\<lparr>AccessCount := AccessCount r', LastAccessed := LastAccessed r'\<rparr>
                    else x) (rows s)"
    by (simp add: Update_def Let_def r'_def)
  also have "\<dots> = map (\<lambda>x. if x = r
                    then r\<lparr>AccessCount := AccessCount r', LastAccessed := LastAccessed r'\<rparr>
                    else x) (rows s)"
    using ids assms(2) by (rule update_by_id)
  also have "r\<lparr>AccessCount := AccessCount r', LastAccessed := LastAccessed r'\<rparr> = r'"
    by (simp add: r'_def)
  finally have upd: "rows (snd (Update s None r')) = map (\<lambda>x. if x = r then r' else x) (rows s)" .
  have stored: "rows (snd (GetOriginalURL s None None now now' (ShortCode r))) =
                  map (\<lambda>x. if x = r then r' else x) (rows s)"
    using assms(3) upd by (simp add: GetOriginalURL_def read inc case_prod_beta)
  have failed: "ufault \<noteq> None \<longrightarrow> snd (GetOriginalURL s None ufault now now' (ShortCode r)) = s"
    using assms(3) by (auto simp: GetOriginalURL_def read inc Update_def)
  have count: "sint (AccessCount r) < 2 ^ 63 - 1 \<longrightarrow>
                 sint (AccessCount r + 1) = sint (AccessCount r) + 1"
    by (simp add: sint_succ)
  show ?thesis
    using returned stored failed count unfolding r'_def by blast
qed

theorem GetOriginalURL_counts_access_witness:
  "wf_store sample_store \<and> row_new \<in> set (rows sample_store) \<and> \<not> IsExpired row_new 500 \<and>
   fst (GetOriginalURL sample_store None (Some ''conn closed'') 500 501 ''a3F9kPm'') =
     Inr (row_new\<lparr>AccessCount := 8, LastAccessed := Some 501\<rparr>) \<and>
   snd (GetOriginalURL sample_store None (Some ''conn closed'') 500 501 ''a3F9kPm'') = sample_store \<and>
   rows (snd (GetOriginalURL sample_store None None 500 501 ''a3F9kPm'')) =
     [row_old, row_golang, row_new\<lparr>AccessCount := 8, LastAccessed := Some 501\<rparr>]"
proof -
  have mem: "row_new \<in> set (rows sample_store)"
    by (simp add: sample_rows)
  have active: "\<not> IsExpired row_new 500"
    by (simp add: IsExpired_def row_new_def)
  have code: "ShortCode row_new = ''a3F9kPm''"
    by (simp add: row_new_def)
  have count: "AccessCount row_new + 1 = 8"
    by (simp add: row_new_def)
  have others: "row_old \<noteq> row_new" "row_golang \<noteq> row_new"
    by (simp_all add: row_old_def row_golang_def row_new_def)
  from GetOriginalURL_counts_access [OF wf_sample_store mem active, of "Some ''conn closed''" 501]
  show ?thesis
    using wf_sample_store mem active others by (simp add: code count sample_rows)
qed

text \<open>
  Claim C10. For every short code present in the table, \<open>GetURLMetadata\<close> returns the
  record when the store delivers it, expired or not (no hypothesis mentions the
  expiry), and it never changes the table.
\<close>

theorem GetURLMetadata_read_only:
  assumes "wf_store s" and "r \<in> set (rows s)"
  shows "GetURLMetadata s None (ShortCode r) = (Inr r, s) \<and>
         snd (GetURLMetadata s fault shortCode) = s"
proof -
  have "GetByShortCode s None (ShortCode r) = Inr r"
    using assms by (rule GetByShortCode_stored)
  then have "GetURLMetadata s None (ShortCode r) = (Inr r, s)"
    by (simp add: GetURLMetadata_def)
  moreover have "snd (GetURLMetadata s fault shortCode) = s"
    by (simp add: GetURLMetadata_def split: sum.splits)
  ultimately show ?thesis ..
qed

theorem GetURLMetadata_read_only_witness:
  "wf_store sample_store \<and> row_old \<in> set (rows sample_store) \<and> IsExpired row_old 500 \<and>
   GetURLMetadata sample_store None ''old1234'' = (Inr row_old, sample_store)"
proof -
  have mem: "row_old \<in> set (rows sample_store)"
    by (simp add: sample_rows)
  have code: "ShortCode row_old = ''old1234''"
    by (simp add: row_old_def)
  have expired: "IsExpired row_old 500"
    by (simp add: IsExpired_def row_old_def)
  from GetURLMetadata_read_only [OF wf_sample_store mem, of None "''old1234''"]
  show ?thesis
    using wf_sample_store mem expired by (simp add: code)
qed

text \<open>
  Claim C9. One run of \<open>CleanupExpired\<close> that the database executes keeps exactly the
  rows whose \<open>ExpiresAt\<close> is not set or not before the clock reading, each unchanged
  and in its place, deletes the others, and returns the number of deleted rows.
\<close>

theorem CleanupExpired_exact:
  "fst (CleanupExpired s None now) =
     Inr (int (length (filter (\<lambda>r. \<exists>t. ExpiresAt r = Some t \<and> t < now) (rows s)))) \<and>
   rows (snd (CleanupExpired s None now)) =
     filter (\<lambda>r. \<not> (\<exists>t. ExpiresAt r = Some t \<and> t < now)) (rows s) \<and>
   next_id (snd (CleanupExpired s None now)) = next_id s \<and>
   fst (CleanupExpired s None now) =
     Inr (int (length (rows s)) - int (length (rows (snd (CleanupExpired s None now)))))"
proof -
  let ?P = "\<lambda>r. \<exists>t. ExpiresAt r = Some t \<and> t < now"
  have pred: "sql_expired now = ?P"
    by (rule ext) (rule sql_expired_iff)
  have run: "CleanupExpired s None now =
    (Inr (int (length (filter ?P (rows s)))), s\<lparr>rows := filter (\<lambda>r. \<not> ?P r) (rows s)\<rparr>)"
    unfolding CleanupExpired_def DeleteExpired_def Let_def pred by simp
  have "length (filter ?P (rows s)) + length (filter (\<lambda>r. \<not> ?P r) (rows s)) = length (rows s)"
    by (rule sum_length_filter_compl)
  then have diff: "int (length (filter ?P (rows s))) =
      int (length (rows s)) - int (length (filter (\<lambda>r. \<not> ?P r) (rows s)))"
    by linarith
  have c1: "fst (CleanupExpired s None now) = Inr (int (length (filter ?P (rows s))))"
    unfolding run by simp
  have c2: "rows (snd (CleanupExpired s None now)) = filter (\<lambda>r. \<not> ?P r) (rows s)"
    unfolding run by simp
  have c3: "next_id (snd (CleanupExpired s None now)) = next_id s"
    unfolding run by simp
  have c4: "fst (CleanupExpired s None now) =
     Inr (int (length (rows s)) - int (length (rows (snd (CleanupExpired s None now)))))"
    unfolding c2 c1 diff ..
  from c1 c2 c3 c4 show ?thesis
    by (intro conjI)
qed

theorem CleanupExpired_exact_witness:
  "fst (CleanupExpired sample_store None 500) = Inr 1 \<and>
   rows (snd (CleanupExpired sample_store None 500)) = [row_golang, row_new]"
proof -
  have old: "\<exists>t. ExpiresAt row_old = Some t \<and> t < 500"
    by (simp add: row_old_def)
  have golang: "\<not> (\<exists>t. ExpiresAt row_golang = Some t \<and> t < 500)"
    by (simp add: row_golang_def)
  have new: "\<not> (\<exists>t. ExpiresAt row_new = Some t \<and> t < 500)"
    by (simp add: row_new_def)
  from CleanupExpired_exact [of sample_store 500] show ?thesis
    unfolding sample_rows using old golang new by simp
qed

text \<open>
  Claim C8. For all integers \<open>limit\<close> and \<open>offset\<close>, the limit of the query is 20 when
  \<open>limit\<close> is not positive, lies in (0, 100], and is \<open>limit\<close> itself when that lies in
  (0, 100]; the offset of the query is 0 when \<open>offset\<close> is negative and \<open>offset\<close>
  otherwise; the total is the number of rows of the table.
\<close>

theorem ListURLs_pagination:
  "(limit \<le> 0 \<longrightarrow> effective_limit limit = 20) \<and>
   0 < effective_limit limit \<and> effective_limit limit \<le> 100 \<and>
   (0 < limit \<and> limit \<le> 100 \<longrightarrow> effective_limit limit = limit) \<and>
   (offset < 0 \<longrightarrow> effective_offset offset = 0) \<and>
   (0 \<le> offset \<longrightarrow> effective_offset offset = offset) \<and>
   ListURLs s None None limit offset =
     (Inr (take (nat (effective_limit limit))
             (drop (nat (effective_offset offset))
                (sort_key (\<lambda>r. - CreatedAt r) (rows s))),
           int (length (rows s))), s)"
proof -
  have lim: "0 < effective_limit limit \<and> effective_limit limit \<le> 100"
    by (simp add: effective_limit_def)
  have off: "0 \<le> effective_offset offset"
    by (simp add: effective_offset_def)
  have "ListURLs s None None limit offset =
     (Inr (take (nat (effective_limit limit))
             (drop (nat (effective_offset offset))
                (sort_key (\<lambda>r. - CreatedAt r) (rows s))),
           int (length (rows s))), s)"
    using lim off by (simp add: ListURLs_def List_def Count_def Let_def)
  then show ?thesis
    using lim by (simp add: effective_limit_def effective_offset_def)
qed

theorem ListURLs_pagination_witness:
  "ListURLs sample_store None None (- 5) (- 3) =
     (Inr ([row_new, row_golang, row_old], 3), sample_store) \<and>
   ListURLs sample_store None None 1000 1 =
     (Inr ([row_golang, row_old], 3), sample_store) \<and>
   ListURLs sample_store None None 1 0 = (Inr ([row_new], 3), sample_store)"
proof -
  have sorted: "sort_key (\<lambda>r. - CreatedAt r) [row_old, row_golang, row_new] =
                  [row_new, row_golang, row_old]"
    by (simp add: row_old_def row_golang_def row_new_def)
  show ?thesis
    using ListURLs_pagination [of "- 5" "- 3" sample_store, unfolded sample_rows sorted]
      ListURLs_pagination [of 1000 1 sample_store, unfolded sample_rows sorted]
      ListURLs_pagination [of 1 0 sample_store, unfolded sample_rows sorted]
    by (simp add: effective_limit_def effective_offset_def)
qed

section \<open>Properties of code allocation\<close>

lemma find_present:
  "c \<in> set (map ShortCode xs) \<Longrightarrow> \<exists>r. find (\<lambda>x. ShortCode x = c) xs = Some r"
  by (cases "find (\<lambda>x. ShortCode x = c) xs") (auto simp: find_None_iff)

lemma find_absent:
  "c \<notin> set (map ShortCode xs) \<Longrightarrow> find (\<lambda>x. ShortCode x = c) xs = None"
  by (auto simp: find_None_iff)

lemma loop_collision:
  assumes "attempt < maxAttempts"
    and "generateRandomCode (ShortCodeLength cfg) (rnd attempt) = Inr c"
    and "fault attempt = None" and "c \<in> set (map ShortCode (rows s))"
  shows "generateShortCode_loop cfg s rnd fault attempt probed =
         generateShortCode_loop cfg s rnd fault (attempt + 1) (probed @ [c])"
proof -
  from find_present [OF assms(4)] obtain r where "find (\<lambda>x. ShortCode x = c) (rows s) = Some r" ..
  then have "GetByShortCode s (fault attempt) c = Inr r"
    by (simp add: GetByShortCode_def assms(3))
  then show ?thesis
    using assms(1,2) by (subst generateShortCode_loop.simps) simp
qed

lemma loop_accept:
  assumes "attempt < maxAttempts"
    and "generateRandomCode (ShortCodeLength cfg) (rnd attempt) = Inr c"
    and "fault attempt = None" and "c \<notin> set (map ShortCode (rows s))"
  shows "generateShortCode_loop cfg s rnd fault attempt probed = (Inr c, probed @ [c])"
proof -
  have "GetByShortCode s (fault attempt) c = Inl ErrURLNotFound"
    by (simp add: GetByShortCode_def assms(3) find_absent [OF assms(4)])
  then show ?thesis
    using assms(1,2) by (subst generateShortCode_loop.simps) simp
qed

lemma loop_exhausted:
  "generateShortCode_loop cfg s rnd fault maxAttempts probed =
     (Inl (Errorf ''failed to generate unique short code after 10 attempts''), probed)"
  by (subst generateShortCode_loop.simps) simp

lemma loop_skip:
  assumes "\<forall>k. attempt \<le> k \<and> k < m \<longrightarrow>
             (\<exists>c. generateRandomCode (ShortCodeLength cfg) (rnd k) = Inr c \<and>
                  fault k = None \<and> c \<in> set (map ShortCode (rows s)))"
    and "attempt \<le> m" and "m \<le> maxAttempts"
  shows "\<exists>codes. length codes = m - attempt \<and>
           (\<forall>i<length codes.
              generateRandomCode (ShortCodeLength cfg) (rnd (attempt + i)) = Inr (codes ! i)) \<and>
           generateShortCode_loop cfg s rnd fault attempt probed =
           generateShortCode_loop cfg s rnd fault m (probed @ codes)"
  using assms
proof (induction "m - attempt" arbitrary: attempt probed)
  case 0
  then have "attempt = m" by simp
  then show ?case by simp
next
  case (Suc n)
  then have lt: "attempt < m" by simp
  with Suc.prems(1) obtain c where
    c: "generateRandomCode (ShortCodeLength cfg) (rnd attempt) = Inr c"
       "fault attempt = None" "c \<in> set (map ShortCode (rows s))"
    by blast
  from lt Suc.prems(3) have "attempt < maxAttempts" by simp
  from loop_collision [where cfg = cfg and rnd = rnd and fault = fault and attempt = attempt
      and c = c and s = s and probed = probed, OF this c]
  have step: "generateShortCode_loop cfg s rnd fault attempt probed =
              generateShortCode_loop cfg s rnd fault (attempt + 1) (probed @ [c])" .
  have n: "n = m - (attempt + 1)"
    using Suc.hyps(2) by simp
  have rest: "\<forall>k. attempt + 1 \<le> k \<and> k < m \<longrightarrow>
             (\<exists>c. generateRandomCode (ShortCodeLength cfg) (rnd k) = Inr c \<and>
                  fault k = None \<and> c \<in> set (map ShortCode (rows s)))"
    using Suc.prems(1) by simp
  from Suc.hyps(1) [OF n rest _ Suc.prems(3), of "probed @ [c]"] lt
  obtain codes where codes: "length codes = m - (attempt + 1)"
    "\<forall>i<length codes.
       generateRandomCode (ShortCodeLength cfg) (rnd (attempt + 1 + i)) = Inr (codes ! i)"
    "generateShortCode_loop cfg s rnd fault (attempt + 1) (probed @ [c]) =
     generateShortCode_loop cfg s rnd fault m ((probed @ [c]) @ codes)"
    by auto
  show ?case
  proof (intro exI conjI allI impI)
    show "length (c # codes) = m - attempt"
      using codes(1) lt by simp
    show "generateShortCode_loop cfg s rnd fault attempt probed =
          generateShortCode_loop cfg s rnd fault m (probed @ c # codes)"
      using step codes(3) by simp
    fix i assume "i < length (c # codes)"
    then show "generateRandomCode (ShortCodeLength cfg) (rnd (attempt + i)) = Inr ((c # codes) ! i)"
      using c(1) codes(2) by (cases i) simp_all
  qed
qed

lemma loop_probes:
  "length (snd (generateShortCode_loop cfg s rnd fault attempt probed))
     \<le> length probed + (maxAttempts - attempt)"
proof (induction cfg s rnd fault attempt probed rule: generateShortCode_loop.induct)
  case (1 cfg s rnd fault attempt probed)
  show ?case
  proof (cases "attempt < maxAttempts")
    case False
    then show ?thesis
      by (subst generateShortCode_loop.simps) simp
  next
    case True
    show ?thesis
    proof (cases "generateRandomCode (ShortCodeLength cfg) (rnd attempt)")
      case (Inl err)
      with True show ?thesis
        by (subst generateShortCode_loop.simps) simp
    next
      case (Inr code)
      show ?thesis
      proof (cases "GetByShortCode s (fault attempt) code")
        case (Inl err)
        with True Inr show ?thesis
          by (subst generateShortCode_loop.simps) simp
      next
        case found: (Inr r)
        from "1.IH" [OF True Inr found]
        have "length (snd (generateShortCode_loop cfg s rnd fault (attempt + 1) (probed @ [code])))
                \<le> length (probed @ [code]) + (maxAttempts - (attempt + 1))" .
        with True Inr found show ?thesis
          by (subst generateShortCode_loop.simps) simp
      qed
    qed
  qed
qed

lemma generateShortCode_exhausts:
  assumes "\<forall>k<10. \<exists>c. generateRandomCode (ShortCodeLength cfg) (rnd k) = Inr c \<and>
                      fault k = None \<and> c \<in> set (map ShortCode (rows s))"
  shows "\<exists>codes. length codes = 10 \<and>
           (\<forall>i<10. generateRandomCode (ShortCodeLength cfg) (rnd i) = Inr (codes ! i)) \<and>
           generateShortCode cfg s rnd fault =
             (Inl (Errorf ''failed to generate unique short code after 10 attempts''), codes)"
proof -
  have all: "\<forall>k. 0 \<le> k \<and> k < maxAttempts \<longrightarrow>
             (\<exists>c. generateRandomCode (ShortCodeLength cfg) (rnd k) = Inr c \<and>
                  fault k = None \<and> c \<in> set (map ShortCode (rows s)))"
    using assms by (simp add: maxAttempts_def)
  from loop_skip [where probed = "[]", OF all]
  obtain codes where codes: "length codes = maxAttempts - 0"
    "\<forall>i<length codes. generateRandomCode (ShortCodeLength cfg) (rnd (0 + i)) = Inr (codes ! i)"
    "generateShortCode_loop cfg s rnd fault 0 [] =
     generateShortCode_loop cfg s rnd fault maxAttempts ([] @ codes)"
    by auto
  have run: "generateShortCode cfg s rnd fault =
      (Inl (Errorf ''failed to generate unique short code after 10 attempts''), codes)"
    by (simp add: generateShortCode_def codes(3) loop_exhausted)
  have len: "length codes = 10"
    using codes(1) by (simp add: maxAttempts_def)
  from codes(2) len run show ?thesis
    by auto
qed

lemma generateShortCode_accepts:
  assumes "n < 10"
    and "\<forall>k<n. \<exists>c. generateRandomCode (ShortCodeLength cfg) (rnd k) = Inr c \<and>
                      fault k = None \<and> c \<in> set (map ShortCode (rows s))"
    and "generateRandomCode (ShortCodeLength cfg) (rnd n) = Inr c"
    and "fault n = None" and "c \<notin> set (map ShortCode (rows s))"
  shows "\<exists>codes. length codes = n \<and>
           (\<forall>i<n. generateRandomCode (ShortCodeLength cfg) (rnd i) = Inr (codes ! i)) \<and>
           generateShortCode cfg s rnd fault = (Inr c, codes @ [c])"
proof -
  have n: "n < maxAttempts"
    using assms(1) by (simp add: maxAttempts_def)
  have all: "\<forall>k. 0 \<le> k \<and> k < n \<longrightarrow>
             (\<exists>c. generateRandomCode (ShortCodeLength cfg) (rnd k) = Inr c \<and>
                  fault k = None \<and> c \<in> set (map ShortCode (rows s)))"
    using assms(2) by simp
  from loop_skip [where probed = "[]" and m = n, OF all] n
  obtain codes where codes: "length codes = n - 0"
    "\<forall>i<length codes. generateRandomCode (ShortCodeLength cfg) (rnd (0 + i)) = Inr (codes ! i)"
    "generateShortCode_loop cfg s rnd fault 0 [] =
     generateShortCode_loop cfg s rnd fault n ([] @ codes)"
    by auto
  have "generateShortCode_loop cfg s rnd fault n codes = (Inr c, codes @ [c])"
    using n assms(3,4,5) by (rule loop_accept)
  with codes show ?thesis
    by (auto simp: generateShortCode_def)
qed

lemma validateShortCode_length:
  "validateShortCode code = None \<Longrightarrow> 3 \<le> length code \<and> length code \<le> 20 \<and> code \<noteq> []"
  by (auto simp: validateShortCode_def split: if_splits)

lemma Create_fresh:
  assumes "3 \<le> length (ShortCode u)" and "length (ShortCode u) \<le> 20"
    and "ShortCode u \<notin> set (map ShortCode (rows s))"
  shows "Create s None u =
           (Inr (u\<lparr>ID := next_id s\<rparr>),
            s\<lparr>next_id := next_id s + 1,
              rows := rows s @ [u\<lparr>ID := next_id s, LastAccessed := None\<rparr>]\<rparr>)"
  using assms by (simp add: Create_def sql_insert_def Let_def)

lemma Create_duplicate:
  assumes "3 \<le> length (ShortCode u)" and "length (ShortCode u) \<le> 20"
    and "ShortCode u \<in> set (map ShortCode (rows s))"
  shows "Create s None u = (Inl ErrShortCodeAlreadyExists, s\<lparr>next_id := next_id s + 1\<rparr>)"
  using assms by (simp add: Create_def sql_insert_def Let_def)

lemma find_appended:
  "code \<notin> set (map ShortCode xs) \<Longrightarrow> ShortCode x = code \<Longrightarrow>
     find (\<lambda>r. ShortCode r = code) (xs @ [x]) = Some x"
  by (induction xs) auto

lemma zero_code: "generateRandomCode 7 [0x00, 0x00, 0x00, 0x00, 0x00, 0x00] = Inr ''AAAAAAA''"
  by code_simp

lemma late_code: "generateRandomCode 7 [0x69, 0xB7, 0x1D, 0x79, 0xF8, 0x21] = Inr ''abcdefg''"
  by code_simp

lemma busy_codes:
  "map ShortCode (rows busy_store) = [''old1234'', ''golang'', ''a3F9kPm'', ''AAAAAAA'']"
  by (simp add: busy_store_def row_old_def row_golang_def row_new_def row_zero_def)

lemma sample_codes: "map ShortCode (rows sample_store) = [''old1234'', ''golang'', ''a3F9kPm'']"
  by (simp add: sample_store_def row_old_def row_golang_def row_new_def)

lemma sample_url_valid: "validateURL sample_parse ''https://golang.org'' = None"
  by (simp add: validateURL_def sample_parse_def)

lemma sample_url_valid': "validateURL sample_parse ''https://example.org'' = None"
  by (simp add: validateURL_def sample_parse_def)

text \<open>
  Claim C6. \<open>generateShortCode\<close> probes the store at most 10 times. When each of the
  10 attempts generates a candidate that the store reports as present, the probed codes
  are the 10 candidates, the result is the exhaustion error and \<open>CreateShortURL\<close>
  returns it without another try and without touching the table. When the attempts
  before the \<open>n\<close>-th collide and the \<open>n\<close>-th candidate is reported as not found, that
  candidate is accepted after \<open>n + 1\<close> probes.
\<close>

theorem generateShortCode_bounded:
  "length (snd (generateShortCode cfg s rnd fault)) \<le> 10 \<and>
   ((\<forall>k<10. \<exists>c. generateRandomCode (ShortCodeLength cfg) (rnd k) = Inr c \<and>
                  fault k = None \<and> c \<in> set (map ShortCode (rows s))) \<longrightarrow>
      fst (generateShortCode cfg s rnd fault) =
        Inl (Errorf ''failed to generate unique short code after 10 attempts'') \<and>
      length (snd (generateShortCode cfg s rnd fault)) = 10 \<and>
      (\<forall>i<10. generateRandomCode (ShortCodeLength cfg) (rnd i) =
                 Inr (snd (generateShortCode cfg s rnd fault) ! i)) \<and>
      (validateURL parse url = None \<longrightarrow>
         CreateShortURL cfg parse rnd fault ifault now s url [] ttl =
           (Inl (Wrapped ''failed to generate short code''
                  (Errorf ''failed to generate unique short code after 10 attempts'')), s))) \<and>
   (\<forall>n c. n < 10 \<and>
      (\<forall>k<n. \<exists>c'. generateRandomCode (ShortCodeLength cfg) (rnd k) = Inr c' \<and>
                  fault k = None \<and> c' \<in> set (map ShortCode (rows s))) \<and>
      generateRandomCode (ShortCodeLength cfg) (rnd n) = Inr c \<and>
      fault n = None \<and> c \<notin> set (map ShortCode (rows s)) \<longrightarrow>
      fst (generateShortCode cfg s rnd fault) = Inr c \<and>
      length (snd (generateShortCode cfg s rnd fault)) = n + 1 \<and>
      snd (generateShortCode cfg s rnd fault) ! n = c \<and>
      (\<forall>i<n. generateRandomCode (ShortCodeLength cfg) (rnd i) =
                Inr (snd (generateShortCode cfg s rnd fault) ! i)))"
proof (intro conjI impI allI)
  show "length (snd (generateShortCode cfg s rnd fault)) \<le> 10"
    using loop_probes [of cfg s rnd fault 0 "[]"]
    by (simp add: generateShortCode_def maxAttempts_def)
next
  assume busy: "\<forall>k<10. \<exists>c. generateRandomCode (ShortCodeLength cfg) (rnd k) = Inr c \<and>
                  fault k = None \<and> c \<in> set (map ShortCode (rows s))"
  from generateShortCode_exhausts [OF busy]
  obtain codes where codes: "length codes = 10"
    "\<forall>i<10. generateRandomCode (ShortCodeLength cfg) (rnd i) = Inr (codes ! i)"
    "generateShortCode cfg s rnd fault =
       (Inl (Errorf ''failed to generate unique short code after 10 attempts''), codes)"
    by blast
  show "fst (generateShortCode cfg s rnd fault) =
        Inl (Errorf ''failed to generate unique short code after 10 attempts'')"
    by (simp add: codes(3))
  show "length (snd (generateShortCode cfg s rnd fault)) = 10"
    by (simp add: codes(1,3))
  show "\<And>i. i < 10 \<Longrightarrow> generateRandomCode (ShortCodeLength cfg) (rnd i) =
                 Inr (snd (generateShortCode cfg s rnd fault) ! i)"
    using codes(2) by (simp add: codes(3))
  show "CreateShortURL cfg parse rnd fault ifault now s url [] ttl =
           (Inl (Wrapped ''failed to generate short code''
                  (Errorf ''failed to generate unique short code after 10 attempts'')), s)"
    if "validateURL parse url = None"
    using that by (simp add: CreateShortURL_def codes(3) is_panic_def)
next
  fix n c
  assume hyp: "n < 10 \<and>
      (\<forall>k<n. \<exists>c'. generateRandomCode (ShortCodeLength cfg) (rnd k) = Inr c' \<and>
                  fault k = None \<and> c' \<in> set (map ShortCode (rows s))) \<and>
      generateRandomCode (ShortCodeLength cfg) (rnd n) = Inr c \<and>
      fault n = None \<and> c \<notin> set (map ShortCode (rows s))"
  then have "\<exists>codes. length codes = n \<and>
           (\<forall>i<n. generateRandomCode (ShortCodeLength cfg) (rnd i) = Inr (codes ! i)) \<and>
           generateShortCode cfg s rnd fault = (Inr c, codes @ [c])"
    by (intro generateShortCode_accepts) simp_all
  then obtain codes where codes: "length codes = n"
    "\<forall>i<n. generateRandomCode (ShortCodeLength cfg) (rnd i) = Inr (codes ! i)"
    "generateShortCode cfg s rnd fault = (Inr c, codes @ [c])"
    by blast
  show "fst (generateShortCode cfg s rnd fault) = Inr c"
    by (simp add: codes(3))
  show "length (snd (generateShortCode cfg s rnd fault)) = n + 1"
    by (simp add: codes(1,3))
  show "snd (generateShortCode cfg s rnd fault) ! n = c"
    using codes(1) by (simp add: codes(3) nth_append)
  show "\<And>i. i < n \<Longrightarrow> generateRandomCode (ShortCodeLength cfg) (rnd i) =
                Inr (snd (generateShortCode cfg s rnd fault) ! i)"
    using codes(1,2) by (simp add: codes(3) nth_append)
qed

theorem generateShortCode_bounded_witness:
  "fst (generateShortCode sample_config busy_store zero_source (\<lambda>k. None)) =
     Inl (Errorf ''failed to generate unique short code after 10 attempts'') \<and>
   length (snd (generateShortCode sample_config busy_store zero_source (\<lambda>k. None))) = 10 \<and>
   CreateShortURL sample_config sample_parse zero_source (\<lambda>k. None) None 600 busy_store
       ''https://golang.org'' [] 0 =
     (Inl (Wrapped ''failed to generate short code''
            (Errorf ''failed to generate unique short code after 10 attempts'')), busy_store) \<and>
   fst (generateShortCode sample_config busy_store late_source (\<lambda>k. None)) = Inr ''abcdefg'' \<and>
   length (snd (generateShortCode sample_config busy_store late_source (\<lambda>k. None))) = 3"
proof -
  have len: "ShortCodeLength sample_config = 7"
    by (simp add: sample_config_def)
  have busy: "\<forall>k<10. \<exists>c. generateRandomCode (ShortCodeLength sample_config) (zero_source k) = Inr c \<and>
                  (\<lambda>k. None :: string option) k = None \<and>
                  c \<in> set (map ShortCode (rows busy_store))"
    by (simp add: len zero_source_def zero_code busy_codes)
  have first: "\<forall>k<2. \<exists>c'. generateRandomCode (ShortCodeLength sample_config) (late_source k) = Inr c' \<and>
                  (\<lambda>k. None :: string option) k = None \<and>
                  c' \<in> set (map ShortCode (rows busy_store))"
    by (simp add: len late_source_def zero_code busy_codes)
  have third: "generateRandomCode (ShortCodeLength sample_config) (late_source 2) = Inr ''abcdefg''"
    by (simp add: len late_source_def late_code)
  have free: "''abcdefg'' \<notin> set (map ShortCode (rows busy_store))"
    by (simp add: busy_codes)
  note exhausted = generateShortCode_bounded [where cfg = sample_config and s = busy_store
      and rnd = zero_source and fault = "\<lambda>k. None" and parse = sample_parse
      and url = "''https://golang.org''" and ifault = None and now = 600 and ttl = 0]
  note accepted = generateShortCode_bounded [where cfg = sample_config and s = busy_store
      and rnd = late_source and fault = "\<lambda>k. None"]
  from accepted have
    "2 < (10 :: nat) \<and>
      (\<forall>k<2. \<exists>c'. generateRandomCode (ShortCodeLength sample_config) (late_source k) = Inr c' \<and>
                  (\<lambda>k. None :: string option) k = None \<and>
                  c' \<in> set (map ShortCode (rows busy_store))) \<and>
      generateRandomCode (ShortCodeLength sample_config) (late_source 2) = Inr ''abcdefg'' \<and>
      (\<lambda>k. None :: string option) 2 = None \<and>
      ''abcdefg'' \<notin> set (map ShortCode (rows busy_store)) \<longrightarrow>
      fst (generateShortCode sample_config busy_store late_source (\<lambda>k. None)) = Inr ''abcdefg'' \<and>
      length (snd (generateShortCode sample_config busy_store late_source (\<lambda>k. None))) = 2 + 1"
    by blast
  with first third free have late:
    "fst (generateShortCode sample_config busy_store late_source (\<lambda>k. None)) = Inr ''abcdefg'' \<and>
     length (snd (generateShortCode sample_config busy_store late_source (\<lambda>k. None))) = 3"
    by simp
  from exhausted busy sample_url_valid late show ?thesis
    by blast
qed

text \<open>
  Claim C7. For valid URLs and a valid custom code that the table does not hold yet,
  the first creation succeeds and adds one row; a second creation with the same custom
  code, executed by the database, fails with an error that is
  \<open>ErrShortCodeAlreadyExists\<close> for \<^verbatim>\<open>errors.Is\<close> (status 409), adds no row and generates no
  other code, and the first record is still returned as it was created.
\<close>

theorem CreateShortURL_duplicate_custom_code:
  assumes "validateURL parse url1 = None" and "validateURL parse url2 = None"
    and "validateShortCode code = None"
    and "code \<notin> set (map ShortCode (rows s))"
  shows "\<exists>created s1 s2.
           CreateShortURL cfg parse rnd pfault None now1 s url1 code ttl1 = (Inr created, s1) \<and>
           ShortCode created = code \<and> OriginalURL created = url1 \<and>
           rows s1 = rows s @ [created] \<and>
           CreateShortURL cfg' parse rnd' pfault' None now2 s1 url2 code ttl2 =
             (Inl (Wrapped ''failed to create url'' ErrShortCodeAlreadyExists), s2) \<and>
           errors_Is (Wrapped ''failed to create url'' ErrShortCodeAlreadyExists)
             ErrShortCodeAlreadyExists \<and>
           handleServiceError (Wrapped ''failed to create url'' ErrShortCodeAlreadyExists) =
             (409, ''short code already exists'') \<and>
           rows s2 = rows s1 \<and>
           GetURLMetadata s2 None code = (Inr created, s2)"
proof -
  from assms(3) have len: "3 \<le> length code" "length code \<le> 20" and nonempty: "code \<noteq> []"
    using validateShortCode_length by blast+
  define e1 where "e1 = (if 0 < ttl1 then Some (now1 + ttl1)
                         else if 0 < DefaultTTL cfg then Some (now1 + DefaultTTL cfg) else None)"
  define u1 where "u1 = \<lparr>ID = 0, ShortCode = code, OriginalURL = url1, CreatedAt = now1,
                          ExpiresAt = e1, AccessCount = 0, LastAccessed = None\<rparr>"
  define created where "created = u1\<lparr>ID := next_id s\<rparr>"
  define s1 where "s1 = s\<lparr>next_id := next_id s + 1, rows := rows s @ [created]\<rparr>"
  define e2 where "e2 = (if 0 < ttl2 then Some (now2 + ttl2)
                         else if 0 < DefaultTTL cfg' then Some (now2 + DefaultTTL cfg') else None)"
  define u2 where "u2 = \<lparr>ID = 0, ShortCode = code, OriginalURL = url2, CreatedAt = now2,
                          ExpiresAt = e2, AccessCount = 0, LastAccessed = None\<rparr>"
  define s2 where "s2 = s1\<lparr>next_id := next_id s1 + 1\<rparr>"
  have stored: "u1\<lparr>ID := next_id s, LastAccessed := None\<rparr> = created"
    by (simp add: created_def u1_def)
  have "Create s None u1 = (Inr created, s1)"
    using Create_fresh [of u1 s] len assms(4) by (simp add: u1_def created_def s1_def)
  then have first: "CreateShortURL cfg parse rnd pfault None now1 s url1 code ttl1 = (Inr created, s1)"
    using assms(1,3) nonempty by (simp add: CreateShortURL_def Let_def e1_def u1_def)
  have present: "ShortCode u2 \<in> set (map ShortCode (rows s1))"
    by (simp add: u2_def s1_def created_def u1_def)
  have "Create s1 None u2 = (Inl ErrShortCodeAlreadyExists, s2)"
    using Create_duplicate [of u2 s1] len present by (simp add: u2_def s2_def)
  then have second: "CreateShortURL cfg' parse rnd' pfault' None now2 s1 url2 code ttl2 =
             (Inl (Wrapped ''failed to create url'' ErrShortCodeAlreadyExists), s2)"
    using assms(2,3) nonempty by (simp add: CreateShortURL_def Let_def e2_def u2_def)
  have fields: "ShortCode created = code" "OriginalURL created = url1"
    by (simp_all add: created_def u1_def)
  have same: "rows s2 = rows s1"
    by (simp add: s2_def)
  have "find (\<lambda>r. ShortCode r = code) (rows s2) = Some created"
    using assms(4) fields(1) by (simp add: s2_def s1_def find_appended)
  then have meta: "GetURLMetadata s2 None code = (Inr created, s2)"
    by (simp add: GetURLMetadata_def GetByShortCode_def)
  have status: "handleServiceError (Wrapped ''failed to create url'' ErrShortCodeAlreadyExists) =
             (409, ''short code already exists'')"
    by (simp add: handleServiceError_def)
  have is_dup: "errors_Is (Wrapped ''failed to create url'' ErrShortCodeAlreadyExists)
             ErrShortCodeAlreadyExists"
    by simp
  have added: "rows s1 = rows s @ [created]"
    by (simp add: s1_def)
  from first fields added second is_dup status same meta show ?thesis
    by blast
qed


theorem CreateShortURL_duplicate_custom_code_witness:
  "CreateShortURL sample_config sample_parse zero_source (\<lambda>k. None) None 600 sample_store
      ''https://golang.org'' ''gopher'' 0 = (Inr row_gopher, gopher_store) \<and>
   fst (CreateShortURL sample_config sample_parse zero_source (\<lambda>k. None) None 700 gopher_store
      ''https://example.org'' ''gopher'' 0) =
     Inl (Wrapped ''failed to create url'' ErrShortCodeAlreadyExists) \<and>
   rows (snd (CreateShortURL sample_config sample_parse zero_source (\<lambda>k. None) None 700
      gopher_store ''https://example.org'' ''gopher'' 0)) = rows gopher_store \<and>
   fst (GetURLMetadata (snd (CreateShortURL sample_config sample_parse zero_source (\<lambda>k. None)
      None 700 gopher_store ''https://example.org'' ''gopher'' 0)) None ''gopher'') =
     Inr row_gopher"
proof -
  have code: "validateShortCode ''gopher'' = None"
    by (simp add: validateShortCode_def code_char_ok_def)
  have fresh: "''gopher'' \<notin> set (map ShortCode (rows sample_store))"
    by (simp add: sample_codes)
  have run: "CreateShortURL sample_config sample_parse zero_source (\<lambda>k. None) None 600
      sample_store ''https://golang.org'' ''gopher'' 0 = (Inr row_gopher, gopher_store)"
    using fresh
    by (simp add: CreateShortURL_def sample_url_valid code sample_config_def Create_def
          sql_insert_def Let_def sample_store_def row_gopher_def gopher_store_def)
  from CreateShortURL_duplicate_custom_code [OF sample_url_valid sample_url_valid' code fresh,
      where cfg = sample_config and cfg' = sample_config and rnd = zero_source
        and rnd' = zero_source and pfault = "\<lambda>k. None" and pfault' = "\<lambda>k. None"
        and ?now1.0 = 600 and ?now2.0 = 700 and ?ttl1.0 = 0 and ?ttl2.0 = 0]
  obtain created s1 s2 where
    first: "CreateShortURL sample_config sample_parse zero_source (\<lambda>k. None) None 600
      sample_store ''https://golang.org'' ''gopher'' 0 = (Inr created, s1)"
    and second: "CreateShortURL sample_config sample_parse zero_source (\<lambda>k. None) None 700 s1
        ''https://example.org'' ''gopher'' 0 =
       (Inl (Wrapped ''failed to create url'' ErrShortCodeAlreadyExists), s2)"
    and same: "rows s2 = rows s1"
    and meta: "GetURLMetadata s2 None ''gopher'' = (Inr created, s2)"
    by blast
  from first run have eq: "created = row_gopher" "s1 = gopher_store"
    by simp_all
  show ?thesis
    using run second same meta unfolding eq by simp
qed

section \<open>Distribution of the generated symbols\<close>

lemma set_all_bytes: "set all_bytes = UNIV"
  using UNIV_word_eq_word_of_nat [where ?'a = 8] by (simp add: all_bytes_def)

lemma distinct_all_bytes: "distinct all_bytes"
  using inj_on_word_of_nat [where ?'a = 8] by (simp add: all_bytes_def distinct_map)

lemma single_byte_count_card:
  "single_byte_count c = card {b. generateRandomCode 1 [b] = Inr [c]}"
proof -
  let ?P = "\<lambda>b. generateRandomCode 1 [b] = Inr [c]"
  have "distinct (filter ?P all_bytes)"
    using distinct_all_bytes by (rule distinct_filter)
  then have "card (set (filter ?P all_bytes)) = length (filter ?P all_bytes)"
    by (rule distinct_card)
  moreover have "set (filter ?P all_bytes) = {b. ?P b}"
    by (simp add: set_all_bytes)
  ultimately show ?thesis
    by (simp only: single_byte_count_def)
qed

lemma single_byte_table:
  "map (\<lambda>b. generateRandomCode 1 [b]) all_bytes =
   map (\<lambda>c. Inr [c]) (concat (map (replicate 4) (take 62 encodeURL)) @ ''abcdefgh'')"
  by code_simp

lemma single_byte_count_table:
  "single_byte_count c =
     count_list (concat (map (replicate 4) (take 62 encodeURL)) @ ''abcdefgh'') c"
proof -
  let ?T = "concat (map (replicate 4) (take 62 encodeURL)) @ ''abcdefgh''"
  have "single_byte_count c =
        length (filter (\<lambda>r. r = Inr [c]) (map (\<lambda>b. generateRandomCode 1 [b]) all_bytes))"
    by (simp add: single_byte_count_def filter_map comp_def)
  also have "\<dots> = length (filter (\<lambda>r. r = Inr [c]) (map (\<lambda>x. Inr [x] :: error + string) ?T))"
    by (simp only: single_byte_table)
  also have "\<dots> = length (filter (\<lambda>x. x = c) ?T)"
    by (simp add: filter_map comp_def)
  also have "(\<lambda>x. x = c) = (=) c"
    by (rule ext) (rule eq_commute)
  also have "length (filter ((=) c) ?T) = count_list ?T c"
    by (rule count_list_eq_length_filter [symmetric])
  finally show ?thesis .
qed

lemma charset_counts:
  "list_all (\<lambda>c. count_list (concat (map (replicate 4) (take 62 encodeURL)) @ ''abcdefgh'') c =
                   (if c \<in> set ''abcdefgh'' then 5 else 4)) charset"
  by code_simp


lemma top_sextet:
  fixes z r :: int
  assumes "0 \<le> z" "z < 256" "0 \<le> r" "r < 65536"
  shows "(z * 65536 + r) div 262144 mod 64 = z div 4"
proof -
  have "(z * 65536 + r) div 262144 = (z * 65536 + r) div (65536 * 4)"
    by simp
  also have "\<dots> = (z * 65536 + r) div 65536 div 4"
    by (rule zdiv_zmult2_eq) simp
  also have "(z * 65536 + r) div 65536 = z"
    using assms(3,4) by simp
  finally have "(z * 65536 + r) div 262144 = z div 4" .
  moreover have "0 \<le> z div 4" "z div 4 < 64"
    using assms(1,2) by simp_all
  ultimately show ?thesis
    by simp
qed

lemma sextets_first: "sextets (b # rest) ! 0 = uint b div 4"
proof -
  have b: "0 \<le> uint b" "uint b < 256"
    using uint_lt2p [of b] by simp_all
  show ?thesis
  proof (cases rest)
    case Nil
    then show ?thesis
      using top_sextet [OF b, of 0] by (simp add: Let_def)
  next
    case (Cons x rest')
    have x: "0 \<le> uint x" "uint x < 256"
      using uint_lt2p [of x] by simp_all
    show ?thesis
    proof (cases rest')
      case Nil
      with Cons show ?thesis
        using top_sextet [OF b, of "uint x * 256"] x by (simp add: Let_def)
    next
      case (Cons y rest'')
      have y: "0 \<le> uint y" "uint y < 256"
        using uint_lt2p [of y] by simp_all
      from Cons \<open>rest = x # rest'\<close> show ?thesis
        using top_sextet [OF b, of "uint x * 256 + uint y"] x y
        by (simp add: Let_def add.assoc)
    qed
  qed
qed

lemma sextets_Nil: "sextets rb = [] \<longleftrightarrow> rb = []"
  by (induction rb rule: sextets.induct) (simp_all add: Let_def)

lemma remap_loop_keeps:
  "remap_loop code rb len i res = Inr out \<Longrightarrow> j < i \<Longrightarrow> out ! j = res ! j"
proof (induction code rb len i res rule: remap_loop.induct)
  case (1 code rb len i res)
  show ?case
  proof (cases "i < len")
    case False
    with "1.prems" show ?thesis
      by (simp add: remap_loop.simps)
  next
    case True
    show ?thesis
    proof (cases "code ! i = CHR ''-'' \<or> code ! i = CHR ''_''")
      case special: True
      with True "1.prems"(1) have inb: "i < length rb"
        by (auto simp: remap_loop.simps split: if_splits)
      have step: "remap_loop code rb len (i + 1)
          (res[i := charset ! nat (uint (rb ! i) mod int (length charset))]) = Inr out"
        using True special inb "1.prems"(1) by (simp add: remap_loop.simps)
      from "1.IH"(1) [OF True special inb step] "1.prems"(2) show ?thesis
        by simp
    next
      case plain: False
      have step: "remap_loop code rb len (i + 1) (res[i := code ! i]) = Inr out"
        using True plain "1.prems"(1) by (simp add: remap_loop.simps)
      from "1.IH"(2) [OF True plain step] "1.prems"(2) show ?thesis
        by simp
    qed
  qed
qed

lemma remap_loop_first:
  assumes "remap_loop code rb len 0 res = Inr out" and "0 < len" and "length res = len"
  shows "out ! 0 = (if code ! 0 = CHR ''-'' \<or> code ! 0 = CHR ''_''
                    then charset ! nat (uint (rb ! 0) mod int (length charset))
                    else code ! 0)"
proof (cases "code ! 0 = CHR ''-'' \<or> code ! 0 = CHR ''_''")
  case True
  with assms(1,2) have inb: "0 < length rb"
    by (auto simp: remap_loop.simps split: if_splits)
  have "remap_loop code rb len (0 + 1)
          (res[0 := charset ! nat (uint (rb ! 0) mod int (length charset))]) = Inr out"
    using True inb assms(1,2) by (simp add: remap_loop.simps)
  from remap_loop_keeps [OF this, of 0] show ?thesis
    using True assms(2,3) by simp
next
  case False
  have "remap_loop code rb len (0 + 1) (res[0 := code ! 0]) = Inr out"
    using False assms(1,2) by (simp add: remap_loop.simps)
  from remap_loop_keeps [OF this, of 0] show ?thesis
    using False assms(2,3) by simp
qed

lemma generateRandomCode_first:
  assumes "generateRandomCode len (b # bs) = Inr code" and "0 < len"
  shows "code ! 0 =
           (if encodeURL ! nat (uint b div 4) = CHR ''-'' \<or>
               encodeURL ! nat (uint b div 4) = CHR ''_''
            then charset ! nat (uint b mod int (length charset))
            else encodeURL ! nat (uint b div 4))"
proof -
  define numBytes where "numBytes =
    (if go_rem (len * 6) 8 \<noteq> 0 then go_div (len * 6) 8 + 1 else go_div (len * 6) 8)"
  define rb where "rb = take (nat numBytes) (b # bs)"
  define encoded where "encoded = EncodeToString rb"
  from assms(1) have long: "len \<le> int (length encoded)"
    and loop: "remap_loop (take (nat len) encoded) rb (nat len) 0
                 (replicate (nat len) (CHR 0x00)) = Inr code"
    by (auto simp: generateRandomCode_def Let_def numBytes_def rb_def encoded_def
             split: if_splits)
  from long assms(2) have "encoded \<noteq> []"
    by auto
  then have "rb \<noteq> []"
    by (auto simp: encoded_def EncodeToString_def)
  then obtain rest where rb: "rb = b # rest"
    unfolding rb_def by (cases "nat numBytes") auto
  have "encoded ! 0 = encodeURL ! nat (sextets rb ! 0)"
    using \<open>encoded \<noteq> []\<close> by (simp add: encoded_def EncodeToString_def)
  then have enc0: "take (nat len) encoded ! 0 = encodeURL ! nat (uint b div 4)"
    using assms(2) by (simp add: rb sextets_first)
  from remap_loop_first [OF loop] assms(2) show ?thesis
    by (simp add: enc0 rb)
qed

lemma generateRandomCode_single:
  "generateRandomCode 1 [b] =
     Inr [if encodeURL ! nat (uint b div 4) = CHR ''-'' \<or>
             encodeURL ! nat (uint b div 4) = CHR ''_''
          then charset ! nat (uint b mod int (length charset))
          else encodeURL ! nat (uint b div 4)]"
proof -
  have num: "go_div (1 * 6) 8 = 0" "go_rem (1 * 6) 8 = 6"
    by (simp_all add: go_div_def go_rem_def)
  have enc: "take (nat 1) (EncodeToString [b]) = [encodeURL ! nat (uint b div 4)]"
    using sextets_first [of b "[]"] by (simp add: EncodeToString_def Let_def)
  have last: "\<And>code rb res. remap_loop code rb (Suc 0) (Suc 0) res = Inr res"
    by (simp add: remap_loop.simps)
  have "remap_loop [encodeURL ! nat (uint b div 4)] [b] (nat 1) 0 (replicate (nat 1) (CHR 0x00)) =
     Inr [if encodeURL ! nat (uint b div 4) = CHR ''-'' \<or>
             encodeURL ! nat (uint b div 4) = CHR ''_''
          then charset ! nat (uint b mod int (length charset))
          else encodeURL ! nat (uint b div 4)]"
    by (subst remap_loop.simps) (simp add: last)
  then show ?thesis
    unfolding generateRandomCode_def Let_def num using enc
    by (simp add: EncodeToString_def Let_def)
qed

lemma table_in_charset:
  "list_all (\<lambda>x. x \<in> set charset)
     (concat (map (replicate 4) (take 62 encodeURL)) @ ''abcdefgh'')"
  by code_simp

text \<open>
  Against claim C5 as stated (every symbol of the alphabet equally likely at every
  position). With length 1 the generator reads one byte. The bytes \<^verbatim>\<open>0x68\<close> to \<^verbatim>\<open>0x6B\<close> are
  encoded as \<^verbatim>\<open>a\<close>, and \<^verbatim>\<open>0xF8\<close> is encoded as \<^verbatim>\<open>-\<close> and remapped to position 248 mod 62 = 0
  of the charset, which is \<^verbatim>\<open>a\<close> again: five of the 256 bytes give \<^verbatim>\<open>a\<close>, but only the four
  bytes \<^verbatim>\<open>0x88\<close> to \<^verbatim>\<open>0x8B\<close> give \<^verbatim>\<open>i\<close>.
\<close>

theorem generateRandomCode_not_uniform:
  "generateRandomCode 1 [0x68] = Inr ''a'' \<and> generateRandomCode 1 [0xF8] = Inr ''a'' \<and>
   single_byte_count CHR ''a'' = 5 \<and> single_byte_count CHR ''i'' = 4"
  by code_simp

text \<open>
  Claim C5, amended. The generator is not uniform over the 62 symbols. For every length
  of at least 1 the first character of a returned code is the one-character code of the
  first random byte alone. Of the 256 values of that byte, five give each of the symbols
  \<^verbatim>\<open>a\<close> to \<^verbatim>\<open>h\<close> and four give each of the other 54 symbols of the charset, and no byte
  gives a character outside the charset; \<open>single_byte_count\<close> is the number of bytes in
  question.
\<close>

theorem generateRandomCode_first_symbol_counts:
  "(0 < len \<and> generateRandomCode len (b # bs) = Inr code \<longrightarrow>
      generateRandomCode 1 [b] = Inr [code ! 0]) \<and>
   single_byte_count c = card {x. generateRandomCode 1 [x] = Inr [c]} \<and>
   (c \<in> set charset \<longrightarrow> single_byte_count c = (if c \<in> set ''abcdefgh'' then 5 else 4)) \<and>
   (c \<notin> set charset \<longrightarrow> single_byte_count c = 0)"
proof (intro conjI impI)
  assume run: "0 < len \<and> generateRandomCode len (b # bs) = Inr code"
  then have pos: "0 < len" and ok: "generateRandomCode len (b # bs) = Inr code"
    by simp_all
  from generateRandomCode_first [OF ok pos] have "code ! 0 =
           (if encodeURL ! nat (uint b div 4) = CHR ''-'' \<or>
               encodeURL ! nat (uint b div 4) = CHR ''_''
            then charset ! nat (uint b mod int (length charset))
            else encodeURL ! nat (uint b div 4))" .
  then show "generateRandomCode 1 [b] = Inr [code ! 0]"
    by (simp only: generateRandomCode_single)
next
  show "single_byte_count c = card {x. generateRandomCode 1 [x] = Inr [c]}"
    by (rule single_byte_count_card)
next
  assume "c \<in> set charset"
  with charset_counts show "single_byte_count c = (if c \<in> set ''abcdefgh'' then 5 else 4)"
    unfolding single_byte_count_table list_all_iff by blast
next
  assume "c \<notin> set charset"
  with table_in_charset
  have "c \<notin> set (concat (map (replicate 4) (take 62 encodeURL)) @ ''abcdefgh'')"
    unfolding list_all_iff by blast
  then have "count_list (concat (map (replicate 4) (take 62 encodeURL)) @ ''abcdefgh'') c = 0"
    by (rule count_list_0_iff [THEN iffD2])
  then show "single_byte_count c = 0"
    by (simp only: single_byte_count_table)
qed

theorem generateRandomCode_first_symbol_counts_witness:
  "generateRandomCode 7 [0xF9, 0x00, 0x00, 0x00, 0x00, 0x00] = Inr ''bQAAAAA'' \<and>
   generateRandomCode 1 [0xF9] = Inr ''b'' \<and>
   CHR ''b'' \<in> set charset \<and> single_byte_count CHR ''b'' = 5 \<and>
   CHR ''z'' \<in> set charset \<and> single_byte_count CHR ''z'' = 4 \<and>
   CHR ''-'' \<notin> set charset \<and> single_byte_count CHR ''-'' = 0"
proof -
  have run: "generateRandomCode 7 [0xF9, 0x00, 0x00, 0x00, 0x00, 0x00] = Inr ''bQAAAAA''"
    by code_simp
  have mem: "CHR ''b'' \<in> set charset" "CHR ''z'' \<in> set charset" "CHR ''-'' \<notin> set charset"
    by (simp_all add: charset_def)
  note b = generateRandomCode_first_symbol_counts
      [of 7 "0xF9" "[0x00, 0x00, 0x00, 0x00, 0x00]" "''bQAAAAA''" "CHR ''b''"]
  note z = generateRandomCode_first_symbol_counts [of 0 0 "[]" "[]" "CHR ''z''"]
  note dash = generateRandomCode_first_symbol_counts [of 0 0 "[]" "[]" "CHR ''-''"]
  have first: "generateRandomCode 1 [0xF9] = Inr ''b''"
    using b [THEN conjunct1] run by simp
  have cb: "single_byte_count CHR ''b'' = 5"
    using b [THEN conjunct2, THEN conjunct2, THEN conjunct1] mem(1) by simp
  have cz: "single_byte_count CHR ''z'' = 4"
    using z [THEN conjunct2, THEN conjunct2, THEN conjunct1] mem(2) by simp
  have cd: "single_byte_count CHR ''-'' = 0"
    using dash [THEN conjunct2, THEN conjunct2, THEN conjunct2] mem(3) by simp
  from run first mem cb cz cd show ?thesis
    by (intro conjI)
qed


end
